theory Spec2Isabelle
  imports Main
begin

section \<open>GitHub README searcher: search, README fetch, enrichment, usage statistics\<close>

text \<open>
  The repository holds two searcher classes with the same method names:
  \<^item> \<^verbatim>\<open>app/core/searcher.py\<close> (User-Agent 2.0.0, used by the HTTP routes and by the tests);
    its methods keep their names here;
  \<^item> \<^verbatim>\<open>github_api_searcher.py\<close> (User-Agent 1.0, used by the command line tool); its methods
    carry the suffix \<open>_v1\<close>.

  Conventions of the embedding.
  \<^item> The upstream service is a parameter: a function from the request to the reply.
    Cancellation of the running task is outside the model.
  \<^item> A JSON object delivered by the upstream service is a record of optional fields, \<open>None\<close>
    for an absent key. A field that is present has the type of GitHub's schema (strings, an
    integer star count); \<open>description\<close> and \<open>language\<close> may also be present with the value
    \<open>null\<close>, which is Python's \<open>None\<close>.
  \<^item> A Python \<open>str\<close> is the list of the bytes of its UTF-8 encoding.
  \<^item> A raised exception is the left injection of a sum type.
\<close>

subsection \<open>Data model\<close>

text \<open>The exceptions that occur; every one of them is a subclass of Python's \<open>Exception\<close>.
  \<open>ClientError\<close> stands for whatever the HTTP client raises for a failed transport,
  \<open>DecodeError\<close> for a body that cannot be read as the JSON or text expected,
  \<open>BinasciiError\<close> and \<open>UnicodeDecodeError\<close> are subclasses of \<open>ValueError\<close>.\<close>

datatype py_error =
    KeyError string
  | ValueError
  | BinasciiError
  | UnicodeDecodeError
  | ClientError
  | DecodeError

text \<open>\<^verbatim>\<open>@dataclass class RepositoryInfo\<close> (app/core/models.py, github_api_searcher.py).
  Python's \<open>None\<close> in \<open>description\<close>, \<open>language\<close> and \<open>readme_content\<close> is \<open>None\<close>.\<close>

record RepositoryInfo =
  name :: string
  full_name :: string
  description :: "string option"
  stars :: int
  language :: "string option"
  url :: string
  readme_content :: "string option"

text \<open>One element of the \<open>items\<close> array of a search reply. The outer \<open>option\<close> is the
  presence of the key, the inner one of \<open>description\<close> and \<open>language\<close> is JSON \<open>null\<close>.\<close>

record raw_repo =
  item_name :: "string option"
  item_full_name :: "string option"
  item_description :: "string option option"
  item_stargazers_count :: "int option"
  item_language :: "string option option"
  item_html_url :: "string option"

text \<open>The reply to one \<^verbatim>\<open>session.get\<close>: either the request (or reading the body) raises an
  exception, or a status and a body arrive. \<open>Malformed_Body\<close> is a body that is not the JSON
  (or text) the code reads: \<^verbatim>\<open>response.json()\<close>, or one of the statements that use its
  value inside the \<^verbatim>\<open>try\<close>, raises.\<close>

datatype 'a body = Malformed_Body | Body 'a

datatype 'a reply = Transport_Exception | Reply nat "'a body"

text \<open>The body of a search reply: the \<open>items\<close> array, \<open>None\<close> when the key is absent.\<close>

type_synonym search_body = "raw_repo list option"

text \<open>The body of a reply of the \<open>readme\<close> endpoint: the keys \<open>content\<close> and \<open>encoding\<close>.\<close>

record readme_body =
  body_content :: "string option"
  body_encoding :: "string option"

text \<open>The body of a reply of the \<open>contents\<close> endpoint: the key \<open>download_url\<close>, absent,
  \<open>null\<close> or a string.\<close>

type_synonym contents_body = "string option option"

text \<open>The search endpoint, as a function of the URL and of the query parameters \<open>q\<close>,
  \<open>per_page\<close> and \<open>page\<close> (\<open>sort\<close> and \<open>order\<close> are constant).\<close>

type_synonym search_upstream = "string \<Rightarrow> string \<Rightarrow> int \<Rightarrow> nat \<Rightarrow> search_body reply"

text \<open>The searcher object once its session is open: the host (already stripped of a trailing
  slash by the constructor) and what \<^verbatim>\<open>self.session.get\<close> answers to each URL.\<close>

record searcher =
  github_host :: string
  get_search :: search_upstream
  get_readme :: "string \<Rightarrow> readme_body reply"
  get_contents :: "string \<Rightarrow> contents_body reply"
  get_raw :: "string \<Rightarrow> string reply"

subsection \<open>Pagination (searcher.py 64--97, github_api_searcher.py 71--104)\<close>

text \<open>The loop state: the accumulated raw records and the log of the requests issued, each
  with its \<open>per_page\<close> and \<open>page\<close> parameters.\<close>

record page_state =
  all_repos :: "raw_repo list"
  requests :: "(int \<times> nat) list"

definition dict_get :: "'a option \<Rightarrow> 'a \<Rightarrow> 'a" where
  "dict_get v d = (case v of None \<Rightarrow> d | Some x \<Rightarrow> x)"

definition search_url :: "searcher \<Rightarrow> string" where
  "search_url self = github_host self @ ''/search/repositories''"

function fetch_pages ::
  "searcher \<Rightarrow> string \<Rightarrow> int \<Rightarrow> int \<Rightarrow> nat \<Rightarrow> page_state \<Rightarrow> page_state" where
  "fetch_pages self query per_page limit page st =
    (if int (length (all_repos st)) < limit * 2 \<and> page \<le> 3 then
       (let st1 = st\<lparr>requests := requests st @ [(per_page, page)]\<rparr> in
        case get_search self (search_url self) query per_page page of
          Transport_Exception \<Rightarrow> st1
        | Reply status body \<Rightarrow>
            if status = 200 then
              (case body of
                 Malformed_Body \<Rightarrow> st1
               | Body data \<Rightarrow>
                   (let repos = dict_get data [];
                        st2 = st1\<lparr>all_repos := all_repos st1 @ repos\<rparr>
                    in if int (length repos) < per_page then st2
                       else fetch_pages self query per_page limit (page + 1) st2))
            else st1)
     else st)"
  by pat_completeness auto
termination
  by (relation "measure (\<lambda>(self, query, per_page, limit, page, st). 4 - page)") auto

declare fetch_pages.simps [simp del]

definition search_query :: "string \<Rightarrow> string" where
  "search_query domain = domain @ '' sort:stars''"

definition page_size :: "int \<Rightarrow> int" where
  "page_size limit = min 100 (limit * 2)"

definition collect_pages :: "searcher \<Rightarrow> string \<Rightarrow> int \<Rightarrow> page_state" where
  "collect_pages self domain limit =
     fetch_pages self (search_query domain) (page_size limit) limit 1
       \<lparr>all_repos = [], requests = []\<rparr>"

subsection \<open>Conversion of the raw records\<close>

text \<open>\<^verbatim>\<open>repo['key']\<close>: raises \<open>KeyError\<close> when the key is absent.\<close>

definition dict_item :: "string \<Rightarrow> 'a option \<Rightarrow> py_error + 'a" where
  "dict_item key v = (case v of None \<Rightarrow> Inl (KeyError key) | Some x \<Rightarrow> Inr x)"

text \<open>Sequencing of computations that may raise.\<close>

definition bind_result :: "py_error + 'a \<Rightarrow> ('a \<Rightarrow> py_error + 'b) \<Rightarrow> py_error + 'b" where
  "bind_result m f = (case m of Inl e \<Rightarrow> Inl e | Inr x \<Rightarrow> f x)"

text \<open>searcher.py 102--109: the keyword arguments are evaluated in the order written.\<close>

definition to_repository_info :: "raw_repo \<Rightarrow> py_error + RepositoryInfo" where
  "to_repository_info repo =
     bind_result (dict_item ''name'' (item_name repo)) (\<lambda>n.
     bind_result (dict_item ''full_name'' (item_full_name repo)) (\<lambda>fn.
     bind_result (dict_item ''html_url'' (item_html_url repo)) (\<lambda>u.
       Inr \<lparr>name = n, full_name = fn,
            description = dict_get (item_description repo) (Some ''''),
            stars = dict_get (item_stargazers_count repo) 0,
            language = dict_get (item_language repo) (Some ''Unknown''),
            url = u, readme_content = None\<rparr>)))"

text \<open>github_api_searcher.py 109--116: the star count is read with \<^verbatim>\<open>repo['stargazers_count']\<close>.\<close>

definition to_repository_info_v1 :: "raw_repo \<Rightarrow> py_error + RepositoryInfo" where
  "to_repository_info_v1 repo =
     bind_result (dict_item ''name'' (item_name repo)) (\<lambda>n.
     bind_result (dict_item ''full_name'' (item_full_name repo)) (\<lambda>fn.
     bind_result (dict_item ''stargazers_count'' (item_stargazers_count repo)) (\<lambda>s.
     bind_result (dict_item ''html_url'' (item_html_url repo)) (\<lambda>u.
       Inr \<lparr>name = n, full_name = fn,
            description = dict_get (item_description repo) (Some ''''),
            stars = s,
            language = dict_get (item_language repo) (Some ''Unknown''),
            url = u, readme_content = None\<rparr>))))"

text \<open>The \<^verbatim>\<open>for\<close> loop that converts and appends: the first conversion that raises ends it.\<close>

fun convert_all :: "(raw_repo \<Rightarrow> py_error + RepositoryInfo) \<Rightarrow> raw_repo list
    \<Rightarrow> py_error + RepositoryInfo list" where
  "convert_all conv [] = Inr []"
| "convert_all conv (r # rs) =
     bind_result (conv r) (\<lambda>x. bind_result (convert_all conv rs) (\<lambda>xs. Inr (x # xs)))"

text \<open>The slice \<^verbatim>\<open>xs[:limit]\<close>; a negative bound counts from the end.\<close>

definition slice_to :: "int \<Rightarrow> 'a list \<Rightarrow> 'a list" where
  "slice_to limit xs =
     (if 0 \<le> limit then take (nat limit) xs else take (length xs - nat (- limit)) xs)"

text \<open>\<^verbatim>\<open>repositories.sort(key=lambda x: x.stars, reverse=True)\<close>: the list is reversed, sorted
  stably in ascending order of the key, and reversed again.\<close>

definition sort_stars_reverse :: "RepositoryInfo list \<Rightarrow> RepositoryInfo list" where
  "sort_stars_reverse rs = rev (sort_key stars (rev rs))"

subsection \<open>search_repositories\<close>

text \<open>app/core/searcher.py 48--112: truncate in arrival order, then convert.\<close>

definition search_repositories ::
  "searcher \<Rightarrow> string \<Rightarrow> int \<Rightarrow> py_error + RepositoryInfo list" where
  "search_repositories self domain limit =
     convert_all to_repository_info (slice_to limit (all_repos (collect_pages self domain limit)))"

text \<open>github_api_searcher.py 55--124: convert everything, sort by stars, then truncate.\<close>

definition search_repositories_v1 ::
  "searcher \<Rightarrow> string \<Rightarrow> int \<Rightarrow> py_error + RepositoryInfo list" where
  "search_repositories_v1 self domain limit =
     bind_result (convert_all to_repository_info_v1 (all_repos (collect_pages self domain limit)))
       (\<lambda>repositories. Inr (slice_to limit (sort_stars_reverse repositories)))"

subsection \<open>Decoding the README (the standard library's \<open>base64.b64decode\<close> and \<open>bytes.decode\<close>)\<close>

text \<open>The value of a character of the base64 alphabet: \<open>A\<close>--\<open>Z\<close>, \<open>a\<close>--\<open>z\<close>, \<open>0\<close>--\<open>9\<close>,
  \<open>+\<close> and \<open>/\<close>.\<close>

definition b64_value :: "char \<Rightarrow> nat option" where
  "b64_value c =
     (let n = (of_char c :: nat) in
      if 65 \<le> n \<and> n \<le> 90 then Some (n - 65)
      else if 97 \<le> n \<and> n \<le> 122 then Some (n - 71)
      else if 48 \<le> n \<and> n \<le> 57 then Some (n + 4)
      else if n = 43 then Some 62
      else if n = 47 then Some 63
      else None)"

text \<open>\<open>binascii.a2b_base64\<close> without validation, as \<open>b64decode\<close> calls it: characters
  outside the alphabet are skipped, a completed padding ends the input, and an incomplete last
  group raises \<open>binascii.Error\<close>. The state is the position in the group of four, the bits
  left over, the number of padding characters seen since the last data character, and the
  output.\<close>

fun a2b_base64 :: "nat \<Rightarrow> nat \<Rightarrow> nat \<Rightarrow> string \<Rightarrow> string \<Rightarrow> py_error + string" where
  "a2b_base64 quad_pos leftchar pads out [] =
     (if quad_pos \<noteq> 0 then Inl BinasciiError else Inr out)"
| "a2b_base64 quad_pos leftchar pads out (c # cs) =
     (if c = CHR ''='' then
        (if 2 \<le> quad_pos \<and> 4 \<le> quad_pos + (pads + 1) then Inr out
         else a2b_base64 quad_pos leftchar (if 2 \<le> quad_pos then pads + 1 else pads) out cs)
      else
        (case b64_value c of
           None \<Rightarrow> a2b_base64 quad_pos leftchar pads out cs
         | Some v \<Rightarrow>
             if quad_pos = 0 then a2b_base64 1 v 0 out cs
             else if quad_pos = 1 then
               a2b_base64 2 (v mod 16) 0 (out @ [char_of (leftchar * 4 + v div 16)]) cs
             else if quad_pos = 2 then
               a2b_base64 3 (v mod 4) 0 (out @ [char_of (leftchar * 16 + v div 4)]) cs
             else a2b_base64 0 0 0 (out @ [char_of (leftchar * 64 + v)]) cs))"

text \<open>\<open>base64.b64decode(s)\<close> for a \<open>str\<close> argument: the string is first encoded as ASCII,
  which raises \<open>ValueError\<close> when it holds a character beyond ASCII.\<close>

definition b64decode :: "string \<Rightarrow> py_error + string" where
  "b64decode s =
     (if \<exists>c \<in> set s. 128 \<le> (of_char c :: nat) then Inl ValueError
      else a2b_base64 0 0 0 [] s)"

text \<open>\<open>bytes.decode('utf-8')\<close>: the well-formed byte sequences of UTF-8 (no overlong form, no
  surrogate, nothing above U+10FFFF). Since a \<open>str\<close> is modelled by its UTF-8 bytes, the
  decoded text is the byte sequence itself.\<close>

definition continuation :: "char \<Rightarrow> bool" where
  "continuation c = (128 \<le> (of_char c :: nat) \<and> (of_char c :: nat) \<le> 191)"

definition between :: "nat \<Rightarrow> char \<Rightarrow> nat \<Rightarrow> bool" where
  "between lo c hi = (lo \<le> (of_char c :: nat) \<and> (of_char c :: nat) \<le> hi)"

fun valid_utf8 :: "string \<Rightarrow> bool" where
  "valid_utf8 [] = True"
| "valid_utf8 (a # rest) =
     (if between 0 a 127 then valid_utf8 rest
      else if between 194 a 223 then
        (case rest of b # r \<Rightarrow> continuation b \<and> valid_utf8 r | _ \<Rightarrow> False)
      else if between 224 a 239 then
        (case rest of
           b # c # r \<Rightarrow>
             (if of_char a = (224 :: nat) then between 160 b 191
              else if of_char a = (237 :: nat) then between 128 b 159
              else continuation b)
             \<and> continuation c \<and> valid_utf8 r
         | _ \<Rightarrow> False)
      else if between 240 a 244 then
        (case rest of
           b # c # d # r \<Rightarrow>
             (if of_char a = (240 :: nat) then between 144 b 191
              else if of_char a = (244 :: nat) then between 128 b 143
              else continuation b)
             \<and> continuation c \<and> continuation d \<and> valid_utf8 r
         | _ \<Rightarrow> False)
      else False)"

definition decode_utf8 :: "string \<Rightarrow> py_error + string" where
  "decode_utf8 bs = (if valid_utf8 bs then Inr bs else Inl UnicodeDecodeError)"

subsection \<open>get_readme_content\<close>

definition readme_url :: "searcher \<Rightarrow> string \<Rightarrow> string \<Rightarrow> string" where
  "readme_url self owner repo = github_host self @ ''/repos/'' @ owner @ ''/'' @ repo @ ''/readme''"

text \<open>app/core/searcher.py 128--141, the body of the \<^verbatim>\<open>try\<close>: what it returns, or the
  exception that leaves it.\<close>

definition readme_try :: "searcher \<Rightarrow> string \<Rightarrow> string \<Rightarrow> py_error + string option" where
  "readme_try self owner repo =
     (case get_readme self (readme_url self owner repo) of
        Transport_Exception \<Rightarrow> Inl ClientError
      | Reply status body \<Rightarrow>
          if status = 200 then
            (case body of
               Malformed_Body \<Rightarrow> Inl DecodeError
             | Body data \<Rightarrow>
                 (let content = dict_get (body_content data) [];
                      encoding = dict_get (body_encoding data) ''base64''
                  in if encoding = ''base64'' then
                       bind_result (b64decode content) (\<lambda>bs.
                       bind_result (decode_utf8 bs) (\<lambda>text. Inr (Some text)))
                     else Inr (Some content)))
          else Inr None)"

text \<open>app/core/searcher.py 114--145: \<^verbatim>\<open>except Exception\<close> turns every exception of the
  body into the result \<open>None\<close>.\<close>

definition get_readme_content :: "searcher \<Rightarrow> string \<Rightarrow> string \<Rightarrow> py_error + string option" where
  "get_readme_content self owner repo =
     (case readme_try self owner repo of Inl e \<Rightarrow> Inr None | Inr r \<Rightarrow> Inr r)"

definition contents_url :: "searcher \<Rightarrow> string \<Rightarrow> string \<Rightarrow> string \<Rightarrow> string" where
  "contents_url self owner repo readme_file =
     github_host self @ ''/repos/'' @ owner @ ''/'' @ repo @ ''/contents/'' @ readme_file"

definition readme_files :: "string list" where
  "readme_files = [''README.md'', ''README.rst'', ''README.txt'', ''README'']"

text \<open>github_api_searcher.py 144--155, the body of the \<^verbatim>\<open>try\<close> for one file name:
  \<open>Inr (Some content)\<close> when it returns the content, \<open>Inr None\<close> when it falls through to the
  next file name, \<open>Inl\<close> when it raises.\<close>

definition contents_try :: "searcher \<Rightarrow> string \<Rightarrow> string \<Rightarrow> string \<Rightarrow> py_error + string option" where
  "contents_try self owner repo readme_file =
     (case get_contents self (contents_url self owner repo readme_file) of
        Transport_Exception \<Rightarrow> Inl ClientError
      | Reply status body \<Rightarrow>
          if status = 200 then
            (case body of
               Malformed_Body \<Rightarrow> Inl DecodeError
             | Body data \<Rightarrow>
                 (case dict_get data None of
                    None \<Rightarrow> Inr None
                  | Some download_url \<Rightarrow>
                      if download_url = [] then Inr None
                      else
                        (case get_raw self download_url of
                           Transport_Exception \<Rightarrow> Inl ClientError
                         | Reply content_status content_body \<Rightarrow>
                             if content_status = 200 then
                               (case content_body of
                                  Malformed_Body \<Rightarrow> Inl DecodeError
                                | Body content \<Rightarrow> Inr (Some content))
                             else Inr None)))
          else Inr None)"

text \<open>github_api_searcher.py 140--162: the loop over the file names; an exception or a
  fall-through goes on to the next name, and \<open>None\<close> is returned after the last.\<close>

fun readme_loop_v1 :: "searcher \<Rightarrow> string \<Rightarrow> string \<Rightarrow> string list \<Rightarrow> py_error + string option" where
  "readme_loop_v1 self owner repo [] = Inr None"
| "readme_loop_v1 self owner repo (readme_file # files) =
     (case contents_try self owner repo readme_file of
        Inr (Some content) \<Rightarrow> Inr (Some content)
      | Inr None \<Rightarrow> readme_loop_v1 self owner repo files
      | Inl e \<Rightarrow> readme_loop_v1 self owner repo files)"

definition get_readme_content_v1 :: "searcher \<Rightarrow> string \<Rightarrow> string \<Rightarrow> py_error + string option" where
  "get_readme_content_v1 self owner repo = readme_loop_v1 self owner repo readme_files"

subsection \<open>search_and_get_readmes (searcher.py 147--177, github_api_searcher.py 164--194)\<close>

text \<open>\<^verbatim>\<open>owner, repo_name = repo.full_name.split('/', 1)\<close>: without a slash the split has one
  element and the unpacking raises \<open>ValueError\<close>.\<close>

definition split_full_name :: "string \<Rightarrow> py_error + string \<times> string" where
  "split_full_name s =
     (if CHR ''/'' \<in> set s
      then Inr (takeWhile (\<lambda>c. c \<noteq> CHR ''/'') s, tl (dropWhile (\<lambda>c. c \<noteq> CHR ''/'') s))
      else Inl ValueError)"

text \<open>The first loop builds the list of pairs of a record and its (not yet started) fetch.\<close>

fun make_tasks :: "RepositoryInfo list \<Rightarrow> py_error + (RepositoryInfo \<times> string \<times> string) list" where
  "make_tasks [] = Inr []"
| "make_tasks (repo # rest) =
     bind_result (split_full_name (full_name repo)) (\<lambda>task.
     bind_result (make_tasks rest) (\<lambda>tasks. Inr ((repo, task) # tasks)))"

text \<open>The second loop awaits each fetch and stores its result in the record.\<close>

definition await_task :: "(string \<Rightarrow> string \<Rightarrow> py_error + string option)
    \<Rightarrow> RepositoryInfo \<times> string \<times> string \<Rightarrow> RepositoryInfo" where
  "await_task fetch t =
     (case t of (repo, owner, repo_name) \<Rightarrow>
        (case fetch owner repo_name of
           Inr readme \<Rightarrow> repo\<lparr>readme_content := readme\<rparr>
         | Inl e \<Rightarrow> repo\<lparr>readme_content := None\<rparr>))"

text \<open>The result and the log of the fetches awaited, each with its owner and repository.\<close>

record enriched =
  returned :: "py_error + RepositoryInfo list"
  fetches :: "(string \<times> string) list"

definition enrich :: "(string \<Rightarrow> string \<Rightarrow> py_error + string option)
    \<Rightarrow> py_error + RepositoryInfo list \<Rightarrow> enriched" where
  "enrich fetch found =
     (case found of
        Inl e \<Rightarrow> \<lparr>returned = Inl e, fetches = []\<rparr>
      | Inr repositories \<Rightarrow>
          (case make_tasks repositories of
             Inl e \<Rightarrow> \<lparr>returned = Inl e, fetches = []\<rparr>
           | Inr tasks \<Rightarrow>
               \<lparr>returned = Inr (map (await_task fetch) tasks), fetches = map snd tasks\<rparr>))"

definition search_and_get_readmes :: "searcher \<Rightarrow> string \<Rightarrow> int \<Rightarrow> enriched" where
  "search_and_get_readmes self domain limit =
     enrich (get_readme_content self) (search_repositories self domain limit)"

definition search_and_get_readmes_v1 :: "searcher \<Rightarrow> string \<Rightarrow> int \<Rightarrow> enriched" where
  "search_and_get_readmes_v1 self domain limit =
     enrich (get_readme_content_v1 self) (search_repositories_v1 self domain limit)"

subsection \<open>Usage statistics and the routes (app/api/routes.py)\<close>

record search_stats =
  total_searches :: nat
  total_repositories_found :: nat
  searched_domains :: "string \<rightharpoonup> nat"

text \<open>routes.py 23--27: the value of \<^verbatim>\<open>_search_stats\<close> when the module is loaded.\<close>

definition initial_stats :: search_stats where
  "initial_stats = \<lparr>total_searches = 0, total_repositories_found = 0, searched_domains = Map.empty\<rparr>"

text \<open>routes.py 83--85 (and 126--128, 166--168, 206--208).\<close>

definition update_statistics :: "search_stats \<Rightarrow> string \<Rightarrow> RepositoryInfo list \<Rightarrow> search_stats" where
  "update_statistics st domain repositories =
     st\<lparr>total_searches := total_searches st + 1,
        total_repositories_found := total_repositories_found st + length repositories,
        searched_domains :=
          (searched_domains st)(domain \<mapsto> dict_get (searched_domains st domain) 0 + 1)\<rparr>"

text \<open>The process: the configured token and the upstream service.\<close>

record app_env =
  GITHUB_TOKEN :: "string option"
  api :: searcher

definition token_configured :: "app_env \<Rightarrow> bool" where
  "token_configured env = (case GITHUB_TOKEN env of None \<Rightarrow> False | Some t \<Rightarrow> t \<noteq> [])"

text \<open>\<^verbatim>\<open>GitHubAPISearcher()\<close> (searcher.py 24--30): raises \<open>ValueError\<close> without a token.\<close>

definition new_searcher :: "app_env \<Rightarrow> py_error + searcher" where
  "new_searcher env = (if token_configured env then Inr (api env) else Inl ValueError)"

datatype request =
    Get_Root
  | Get_Health
  | Post_Search string int
  | Get_Search string int
  | Get_Search_Domain string int
  | Get_Search_No_Readme string int
  | Get_Domains
  | Get_Stats

text \<open>The replies, as far as the statistics are concerned: the constant bodies of \<open>/\<close> and
  \<open>/domains\<close> are one value, and of \<open>/stats\<close> only the two counters are kept.\<close>

datatype response =
    Search_Response string "RepositoryInfo list" nat
  | Http_500
  | Http_422
  | Health_Response bool bool
  | Stats_Response nat nat
  | Static_Response

text \<open>The statements under \<^verbatim>\<open>async with GitHubAPISearcher() as searcher\<close>, inside
  \<^verbatim>\<open>try ... except Exception\<close>: the statistics are updated once the search has returned.
  \<open>validated\<close> tells whether the reply is built through the \<open>RepositoryResponse\<close> model,
  whose fields \<open>description\<close> and \<open>language\<close> are declared \<open>str\<close> and refuse \<open>None\<close>.\<close>

definition search_handler ::
  "(searcher \<Rightarrow> py_error + RepositoryInfo list) \<Rightarrow> bool \<Rightarrow> app_env \<Rightarrow> string \<Rightarrow> search_stats
    \<Rightarrow> search_stats \<times> response" where
  "search_handler run validated env domain st =
     (case new_searcher env of
        Inl e \<Rightarrow> (st, Http_500)
      | Inr s \<Rightarrow>
          (case run s of
             Inl e \<Rightarrow> (st, Http_500)
           | Inr repositories \<Rightarrow>
               (let st1 = update_statistics st domain repositories in
                if validated \<and> (\<exists>r \<in> set repositories. description r = None \<or> language r = None)
                then (st1, Http_500)
                else (st1, Search_Response domain repositories (length repositories)))))"

text \<open>routes.py 48--69.\<close>

definition health_check :: "app_env \<Rightarrow> response" where
  "health_check env =
     (let github_token_configured = token_configured env;
          api_connected =
            (if github_token_configured then
               (case new_searcher env of
                  Inl e \<Rightarrow> False
                | Inr s \<Rightarrow> (case search_repositories s ''test'' 1 of Inl e \<Rightarrow> False | Inr repos \<Rightarrow> True))
             else False)
      in Health_Response api_connected github_token_configured)"

text \<open>\<^verbatim>\<open>Field(ge=1, le=100)\<close> and \<^verbatim>\<open>Query(ge=1, le=100)\<close>: the framework answers 422 to any
  other limit before the handler runs.\<close>

definition valid_limit :: "int \<Rightarrow> bool" where
  "valid_limit limit = (1 \<le> limit \<and> limit \<le> 100)"

fun handle :: "app_env \<Rightarrow> request \<Rightarrow> search_stats \<Rightarrow> search_stats \<times> response" where
  "handle env Get_Root st = (st, Static_Response)"
| "handle env Get_Health st = (st, health_check env)"
| "handle env (Post_Search domain limit) st =
     (if valid_limit limit
      then search_handler (\<lambda>s. returned (search_and_get_readmes s domain limit)) True env domain st
      else (st, Http_422))"
| "handle env (Get_Search keywords limit) st =
     (if valid_limit limit
      then search_handler (\<lambda>s. returned (search_and_get_readmes s keywords limit)) False env keywords st
      else (st, Http_422))"
| "handle env (Get_Search_Domain domain limit) st =
     (if valid_limit limit
      then search_handler (\<lambda>s. returned (search_and_get_readmes s domain limit)) False env domain st
      else (st, Http_422))"
| "handle env (Get_Search_No_Readme domain limit) st =
     (if valid_limit limit
      then search_handler (\<lambda>s. search_repositories s domain limit) False env domain st
      else (st, Http_422))"
| "handle env Get_Domains st = (st, Static_Response)"
| "handle env Get_Stats st =
     (st, Stats_Response (total_searches st) (total_repositories_found st))"

text \<open>The statistics after a sequence of requests served since the start of the process.\<close>

definition serve :: "app_env \<Rightarrow> request list \<Rightarrow> search_stats" where
  "serve env reqs = foldl (\<lambda>st req. fst (handle env req st)) initial_stats reqs"

subsection \<open>Notions used in the statements\<close>

text \<open>The owner and the repository of a record, as the split yields them.\<close>

definition owner_and_repo :: "RepositoryInfo \<Rightarrow> string \<times> string" where
  "owner_and_repo r = (takeWhile (\<lambda>c. c \<noteq> CHR ''/'') (full_name r),
                       tl (dropWhile (\<lambda>c. c \<noteq> CHR ''/'') (full_name r)))"

text \<open>The items that page \<open>page\<close> delivers: those of its body when the reply is a readable 200,
  none otherwise.\<close>

definition delivered :: "searcher \<Rightarrow> string \<Rightarrow> int \<Rightarrow> nat \<Rightarrow> raw_repo list" where
  "delivered self query per_page page =
     (case get_search self (search_url self) query per_page page of
        Transport_Exception \<Rightarrow> []
      | Reply status body \<Rightarrow>
          if status = 200 then (case body of Malformed_Body \<Rightarrow> [] | Body data \<Rightarrow> dict_get data [])
          else [])"

text \<open>A page fails: the request raises, the status is not 200, or the body cannot be read.\<close>

definition page_failed :: "searcher \<Rightarrow> string \<Rightarrow> int \<Rightarrow> nat \<Rightarrow> bool" where
  "page_failed self query per_page page =
     (case get_search self (search_url self) query per_page page of
        Transport_Exception \<Rightarrow> True
      | Reply status body \<Rightarrow> status \<noteq> 200 \<or> body = Malformed_Body)"

text \<open>The items of the pages 1 to \<open>k\<close>, in order.\<close>

definition accumulated :: "searcher \<Rightarrow> string \<Rightarrow> int \<Rightarrow> nat \<Rightarrow> raw_repo list" where
  "accumulated self query per_page k = concat (map (delivered self query per_page) [1..<Suc k])"

text \<open>The three conditions that end the pagination after page \<open>k\<close>: three pages fetched, at
  least \<open>limit * 2\<close> items accumulated, or page \<open>k\<close> delivered fewer items than the page size.\<close>

definition stops_after :: "searcher \<Rightarrow> string \<Rightarrow> int \<Rightarrow> int \<Rightarrow> nat \<Rightarrow> bool" where
  "stops_after self query per_page limit k =
     (k = 3 \<or> limit * 2 \<le> int (length (accumulated self query per_page k))
      \<or> int (length (delivered self query per_page k)) < per_page)"

text \<open>The keys that the conversions index without a default.\<close>

definition has_required_keys :: "raw_repo \<Rightarrow> bool" where
  "has_required_keys item =
     (item_name item \<noteq> None \<and> item_full_name item \<noteq> None \<and> item_html_url item \<noteq> None)"

definition has_required_keys_v1 :: "raw_repo \<Rightarrow> bool" where
  "has_required_keys_v1 item = (has_required_keys item \<and> item_stargazers_count item \<noteq> None)"

text \<open>An upstream item conforms: its star count (0 when absent) is not negative and its full
  name, when present, has a slash.\<close>

definition item_conforms :: "raw_repo \<Rightarrow> bool" where
  "item_conforms item =
     (0 \<le> dict_get (item_stargazers_count item) 0 \<and>
      (case item_full_name item of None \<Rightarrow> True | Some fn \<Rightarrow> CHR ''/'' \<in> set fn))"

text \<open>The star count that app/core/searcher.py reads from an item.\<close>

definition item_stars :: "raw_repo \<Rightarrow> int" where
  "item_stars item = dict_get (item_stargazers_count item) 0"

text \<open>Descending order of the star counts.\<close>

definition stars_descending :: "RepositoryInfo list \<Rightarrow> bool" where
  "stars_descending rs = sorted_wrt (\<lambda>a b. stars b \<le> stars a) rs"

text \<open>The standard base64 encoding (RFC 4648), which the decoder is measured against: the
  character of a six-bit value, and the encoding of a byte sequence in groups of three.\<close>

definition b64_char :: "nat \<Rightarrow> char" where
  "b64_char v =
     (if v < 26 then char_of (65 + v)
      else if v < 52 then char_of (71 + v)
      else if v < 62 then char_of (v - 4)
      else if v = 62 then CHR ''+'' else CHR ''/'')"

fun b64encode :: "string \<Rightarrow> string" where
  "b64encode [] = []"
| "b64encode [a] =
     (let x = (of_char a :: nat) in
      [b64_char (x div 4), b64_char ((x mod 4) * 16), CHR ''='', CHR ''=''])"
| "b64encode [a, b] =
     (let x = (of_char a :: nat); y = (of_char b :: nat) in
      [b64_char (x div 4), b64_char ((x mod 4) * 16 + y div 16), b64_char ((y mod 16) * 4),
       CHR ''=''])"
| "b64encode (a # b # c # rest) =
     (let x = (of_char a :: nat); y = (of_char b :: nat); z = (of_char c :: nat) in
      [b64_char (x div 4), b64_char ((x mod 4) * 16 + y div 16),
       b64_char ((y mod 16) * 4 + z div 64), b64_char (z mod 64)] @ b64encode rest)"

text \<open>The attempt of github_api_searcher.py for one file name fails: the \<open>contents\<close>
  request raises, its status is not 200, its body is malformed or names no download address,
  or the download of that address raises, has a status other than 200 or cannot be read.\<close>

definition contents_failed :: "searcher \<Rightarrow> string \<Rightarrow> string \<Rightarrow> string \<Rightarrow> bool" where
  "contents_failed self owner repo readme_file =
     (case get_contents self (contents_url self owner repo readme_file) of
        Transport_Exception \<Rightarrow> True
      | Reply status body \<Rightarrow>
          status \<noteq> 200 \<or>
          (case body of
             Malformed_Body \<Rightarrow> True
           | Body data \<Rightarrow>
               (case dict_get data None of
                  None \<Rightarrow> True
                | Some download_url \<Rightarrow>
                    download_url = [] \<or>
                    (case get_raw self download_url of
                       Transport_Exception \<Rightarrow> True
                     | Reply content_status content_body \<Rightarrow>
                         content_status \<noteq> 200 \<or> content_body = Malformed_Body))))"

text \<open>The searcher \<open>other\<close> answers the requests that the fetch of the README of one
  repository issues to \<open>self\<close> as \<open>self\<close> does: the four \<open>contents\<close> requests and the
  downloads of the addresses that their replies name.\<close>

definition same_readme_replies_v1 :: "searcher \<Rightarrow> searcher \<Rightarrow> string \<Rightarrow> string \<Rightarrow> bool" where
  "same_readme_replies_v1 other self owner repo =
     (github_host other = github_host self \<and>
      list_all (\<lambda>readme_file.
          get_contents other (contents_url self owner repo readme_file)
            = get_contents self (contents_url self owner repo readme_file) \<and>
          (case get_contents self (contents_url self owner repo readme_file) of
             Transport_Exception \<Rightarrow> True
           | Reply status body \<Rightarrow>
               (case body of
                  Malformed_Body \<Rightarrow> True
                | Body data \<Rightarrow>
                    (case dict_get data None of
                       None \<Rightarrow> True
                     | Some download_url \<Rightarrow> get_raw other download_url = get_raw self download_url))))
        readme_files)"

text \<open>For a search request: the queried domain, the limit, and what the call of the searcher
  yields once a searcher exists.\<close>

fun search_call :: "searcher \<Rightarrow> request \<Rightarrow> (string \<times> int \<times> (py_error + RepositoryInfo list)) option" where
  "search_call s (Post_Search domain limit) = Some (domain, limit, returned (search_and_get_readmes s domain limit))"
| "search_call s (Get_Search keywords limit) = Some (keywords, limit, returned (search_and_get_readmes s keywords limit))"
| "search_call s (Get_Search_Domain domain limit) = Some (domain, limit, returned (search_and_get_readmes s domain limit))"
| "search_call s (Get_Search_No_Readme domain limit) = Some (domain, limit, search_repositories s domain limit)"
| "search_call s req = None"

text \<open>The searches that complete: a search request with a valid limit, served with a token
  configured, whose search returns; with the domain and the repositories returned.\<close>

definition completed :: "app_env \<Rightarrow> request \<Rightarrow> (string \<times> RepositoryInfo list) option" where
  "completed env req =
     (case search_call (api env) req of
        Some (domain, limit, Inr repositories) \<Rightarrow>
          if valid_limit limit \<and> token_configured env then Some (domain, repositories) else None
      | _ \<Rightarrow> None)"

text \<open>The searches completed among the requests served, in order.\<close>

definition counted :: "app_env \<Rightarrow> request list \<Rightarrow> (string \<times> RepositoryInfo list) list" where
  "counted env reqs = List.map_filter (completed env) reqs"

subsection \<open>Example inputs\<close>

text \<open>The item of the test \<^verbatim>\<open>test_search_repositories_success\<close>.\<close>

definition test_item :: raw_repo where
  "test_item = \<lparr>item_name = Some ''test-repo'', item_full_name = Some ''test-owner/test-repo'',
     item_description = Some (Some ''Test repository''), item_stargazers_count = Some 100,
     item_language = Some (Some ''Python''),
     item_html_url = Some ''https://github.com/test-owner/test-repo''\<rparr>"

text \<open>The record that the conversion makes of \<open>test_item\<close>.\<close>

definition test_info :: RepositoryInfo where
  "test_info = \<lparr>name = ''test-repo'', full_name = ''test-owner/test-repo'',
     description = Some ''Test repository'', stars = 100, language = Some ''Python'',
     url = ''https://github.com/test-owner/test-repo'', readme_content = None\<rparr>"

text \<open>An item without description and language, whose full name has no slash and whose star
  count is negative.\<close>

definition bare_item :: raw_repo where
  "bare_item = \<lparr>item_name = Some ''bare'', item_full_name = Some ''noslash'',
     item_description = None, item_stargazers_count = Some (- 1),
     item_language = None, item_html_url = Some ''https://github.com/bare''\<rparr>"

text \<open>What the conversion makes of \<open>bare_item\<close>.\<close>

definition bare_info :: RepositoryInfo where
  "bare_info = \<lparr>name = ''bare'', full_name = ''noslash'', description = Some [],
     stars = - 1, language = Some ''Unknown'', url = ''https://github.com/bare'',
     readme_content = None\<rparr>"

text \<open>An item with a given star count.\<close>

definition starred_item :: "int \<Rightarrow> raw_repo" where
  "starred_item n = \<lparr>item_name = Some ''r'', item_full_name = Some ''o/r'',
     item_description = Some None, item_stargazers_count = Some n,
     item_language = Some None, item_html_url = Some ''https://github.com/o/r''\<rparr>"

text \<open>The record that either conversion makes of \<open>starred_item n\<close>.\<close>

definition starred_info :: "int \<Rightarrow> RepositoryInfo" where
  "starred_info n = \<lparr>name = ''r'', full_name = ''o/r'', description = None, stars = n,
     language = None, url = ''https://github.com/o/r'', readme_content = None\<rparr>"

text \<open>The README body of the test \<^verbatim>\<open>test_get_readme_content_success\<close>.\<close>

definition hello_body :: readme_body where
  "hello_body = \<lparr>body_content = Some ''SGVsbG8gV29ybGQ='', body_encoding = Some ''base64''\<rparr>"

text \<open>A searcher over given search pages and README replies.\<close>

definition example_searcher :: "(nat \<Rightarrow> search_body reply) \<Rightarrow> (string \<Rightarrow> readme_body reply) \<Rightarrow> searcher" where
  "example_searcher pages readme =
     \<lparr>github_host = ''https://api.github.com'',
      get_search = (\<lambda>u q per_page page. pages page),
      get_readme = readme,
      get_contents = (\<lambda>u. Reply 404 Malformed_Body),
      get_raw = (\<lambda>u. Reply 404 Malformed_Body)\<rparr>"

text \<open>A search endpoint that delivers the given items on page 1 and nothing after.\<close>

definition one_page :: "raw_repo list \<Rightarrow> nat \<Rightarrow> search_body reply" where
  "one_page items page = (if page = 1 then Reply 200 (Body (Some items)) else Reply 200 (Body (Some [])))"

text \<open>The searchers of the tests (tests/test_searcher.py): one repository found, and a
  README endpoint that answers as the test says.\<close>

definition hello_api :: searcher where
  "hello_api = example_searcher (one_page [test_item]) (\<lambda>u. Reply 200 (Body hello_body))"

definition not_found_api :: searcher where
  "not_found_api = example_searcher (one_page [test_item]) (\<lambda>u. Reply 404 Malformed_Body)"

text \<open>Searchers whose README endpoint fails: by an exception, and by content that is not
  base64.\<close>

definition unreachable_api :: searcher where
  "unreachable_api = example_searcher (one_page [test_item]) (\<lambda>u. Transport_Exception)"

definition garbled_api :: searcher where
  "garbled_api = example_searcher (one_page [test_item])
     (\<lambda>u. Reply 200 (Body \<lparr>body_content = Some ''SGVsbA='', body_encoding = Some ''base64''\<rparr>))"

text \<open>A README that is delivered as plain text.\<close>

definition plain_api :: searcher where
  "plain_api = example_searcher (one_page [test_item])
     (\<lambda>u. Reply 200 (Body \<lparr>body_content = Some ''# plain'', body_encoding = Some ''utf-8''\<rparr>))"

definition bare_api :: searcher where
  "bare_api = example_searcher (one_page [bare_item]) (\<lambda>u. Reply 200 (Body hello_body))"

text \<open>Two repositories found; in \<open>half_broken_api\<close> the README of the second one fails.\<close>

definition two_api :: searcher where
  "two_api = example_searcher (one_page [test_item, starred_item 5]) (\<lambda>u. Reply 200 (Body hello_body))"

definition half_broken_api :: searcher where
  "half_broken_api = example_searcher (one_page [test_item, starred_item 5])
     (\<lambda>u. if u = ''https://api.github.com/repos/o/r/readme'' then Transport_Exception
          else Reply 200 (Body hello_body))"

text \<open>Two repositories found, in ascending order of their stars, whose READMEs differ: the
  \<open>readme\<close> endpoint delivers one as plain text and one in base64, and the \<open>contents\<close>
  endpoint names a download address for \<open>README.rst\<close> of the first and for \<open>README.md\<close> of
  the second.\<close>

definition two_readmes_api :: searcher where
  "two_readmes_api =
     \<lparr>github_host = ''https://api.github.com'',
      get_search = (\<lambda>u q per_page page. one_page [starred_item 5, test_item] page),
      get_readme = (\<lambda>u.
        if u = ''https://api.github.com/repos/o/r/readme''
        then Reply 200 (Body \<lparr>body_content = Some ''# plain'', body_encoding = Some ''utf-8''\<rparr>)
        else if u = ''https://api.github.com/repos/test-owner/test-repo/readme''
        then Reply 200 (Body hello_body)
        else Reply 404 Malformed_Body),
      get_contents = (\<lambda>u.
        if u = ''https://api.github.com/repos/o/r/contents/README.rst''
        then Reply 200 (Body (Some (Some ''https://raw.example/o/r/README.rst'')))
        else if u = ''https://api.github.com/repos/test-owner/test-repo/contents/README.md''
        then Reply 200 (Body (Some (Some ''https://raw.example/test-owner/test-repo/README.md'')))
        else Reply 404 Malformed_Body),
      get_raw = (\<lambda>u.
        if u = ''https://raw.example/o/r/README.rst'' then Reply 200 (Body ''r readme'')
        else if u = ''https://raw.example/test-owner/test-repo/README.md''
        then Reply 200 (Body ''Hello World'')
        else Reply 404 Malformed_Body)\<rparr>"

text \<open>The searcher \<open>two_readmes_api\<close>, except that the download of the README of the
  repository \<open>o/r\<close> raises.\<close>

definition raw_broken_api :: searcher where
  "raw_broken_api = two_readmes_api
     \<lparr>get_raw := (\<lambda>u. if u = ''https://raw.example/o/r/README.rst'' then Transport_Exception
                      else get_raw two_readmes_api u)\<rparr>"

text \<open>A search endpoint that delivers two items in ascending order of stars.\<close>

definition ascending_api :: searcher where
  "ascending_api = example_searcher (one_page [starred_item 1, starred_item 2])
     (\<lambda>u. Reply 200 (Body hello_body))"

text \<open>A search endpoint that delivers two items in descending order of stars.\<close>

definition descending_api :: searcher where
  "descending_api = example_searcher (one_page [starred_item 2, starred_item 1])
     (\<lambda>u. Reply 200 (Body hello_body))"

text \<open>A search endpoint that delivers 100 items on every page, and one whose second page
  answers 500.\<close>

definition full_api :: searcher where
  "full_api = example_searcher (\<lambda>page. Reply 200 (Body (Some (replicate 100 test_item))))
     (\<lambda>u. Reply 200 (Body hello_body))"

definition second_fails_api :: searcher where
  "second_fails_api = example_searcher
     (\<lambda>page. if page = 2 then Reply 500 Malformed_Body
             else Reply 200 (Body (Some (replicate 100 test_item))))
     (\<lambda>u. Reply 200 (Body hello_body))"

text \<open>A search endpoint whose first page delivers 100 items without the key \<open>name\<close> and
  whose second page answers 500.\<close>

definition nameless_api :: searcher where
  "nameless_api = example_searcher
     (\<lambda>page. if page = 2 then Reply 500 Malformed_Body
             else Reply 200 (Body (Some (replicate 100 (test_item\<lparr>item_name := None\<rparr>)))))
     (\<lambda>u. Reply 200 (Body hello_body))"

text \<open>Two processes, without and with a token.\<close>

definition no_token_env :: app_env where
  "no_token_env = \<lparr>GITHUB_TOKEN = None, api = hello_api\<rparr>"

definition token_env :: app_env where
  "token_env = \<lparr>GITHUB_TOKEN = Some ''t'', api = hello_api\<rparr>"

text \<open>A process with a token whose upstream service delivers one item with a \<open>null\<close>
  description.\<close>

definition null_description_env :: app_env where
  "null_description_env = \<lparr>GITHUB_TOKEN = Some ''t'',
     api = example_searcher (one_page [starred_item 5]) (\<lambda>u. Reply 200 (Body hello_body))\<rparr>"

subsection \<open>Sequencing, conversion and enrichment: basic facts\<close>

lemma bind_result_Inr_iff:
  "bind_result m f = Inr y \<longleftrightarrow> (\<exists>x. m = Inr x \<and> f x = Inr y)"
  by (cases m) (simp_all add: bind_result_def)

lemma bind_result_Inl_iff:
  "bind_result m f = Inl e \<longleftrightarrow> m = Inl e \<or> (\<exists>x. m = Inr x \<and> f x = Inl e)"
  by (cases m) (simp_all add: bind_result_def)

lemma bind_result_simps [simp]:
  "bind_result (Inl e) f = Inl e"
  "bind_result (Inr x) f = f x"
  by (simp_all add: bind_result_def)

lemma dict_item_Inr_iff: "dict_item key v = Inr x \<longleftrightarrow> v = Some x"
  by (cases v) (simp_all add: dict_item_def)

lemma to_repository_info_Inr_iff:
  "to_repository_info repo = Inr r \<longleftrightarrow>
     item_name repo = Some (name r) \<and> item_full_name repo = Some (full_name r) \<and>
     item_html_url repo = Some (url r) \<and>
     description r = dict_get (item_description repo) (Some []) \<and>
     stars r = dict_get (item_stargazers_count repo) 0 \<and>
     language r = dict_get (item_language repo) (Some ''Unknown'') \<and>
     readme_content r = None"
  by (cases r) (auto simp: to_repository_info_def bind_result_Inr_iff dict_item_Inr_iff)

lemma to_repository_info_v1_Inr_iff:
  "to_repository_info_v1 repo = Inr r \<longleftrightarrow>
     item_name repo = Some (name r) \<and> item_full_name repo = Some (full_name r) \<and>
     item_html_url repo = Some (url r) \<and>
     description r = dict_get (item_description repo) (Some []) \<and>
     item_stargazers_count repo = Some (stars r) \<and>
     language r = dict_get (item_language repo) (Some ''Unknown'') \<and>
     readme_content r = None"
  by (cases r) (auto simp: to_repository_info_v1_def bind_result_Inr_iff dict_item_Inr_iff)

lemma convert_all_Inr_iff:
  "convert_all conv raws = Inr rs \<longleftrightarrow> list_all2 (\<lambda>raw r. conv raw = Inr r) raws rs"
proof (induction raws arbitrary: rs)
  case Nil
  show ?case by auto
next
  case (Cons raw raws)
  show ?case
    by (cases rs) (auto simp: bind_result_Inr_iff Cons.IH)
qed

lemma convert_all_length: "convert_all conv raws = Inr rs \<Longrightarrow> length rs = length raws"
  by (simp add: convert_all_Inr_iff list_all2_lengthD)

lemma convert_all_origin:
  "convert_all conv raws = Inr rs \<Longrightarrow> r \<in> set rs \<Longrightarrow> \<exists>raw \<in> set raws. conv raw = Inr r"
proof (induction raws arbitrary: rs)
  case Nil
  then show ?case by simp
next
  case (Cons raw raws)
  from Cons.prems(1) obtain x xs where rs: "rs = x # xs" and x: "conv raw = Inr x"
    and xs: "convert_all conv raws = Inr xs"
    by (auto simp: bind_result_Inr_iff)
  show ?case
  proof (cases "r = x")
    case True
    then show ?thesis using x by auto
  next
    case False
    then have "r \<in> set xs" using Cons.prems(2) rs by simp
    from Cons.IH [OF xs this] show ?thesis by auto
  qed
qed

lemma convert_all_map:
  "convert_all conv raws = Inr rs \<Longrightarrow> (\<And>raw r. conv raw = Inr r \<Longrightarrow> f r = g raw) \<Longrightarrow>
   map f rs = map g raws"
proof (induction raws arbitrary: rs)
  case Nil
  then show ?case by simp
next
  case (Cons raw raws)
  from Cons.prems(1) obtain x xs where rs: "rs = x # xs" and x: "conv raw = Inr x"
    and xs: "convert_all conv raws = Inr xs"
    by (auto simp: bind_result_Inr_iff)
  have "map f xs = map g raws" using Cons.IH [OF xs] Cons.prems(2) by blast
  moreover have "f x = g raw" using x by (rule Cons.prems(2))
  ultimately show ?case using rs by simp
qed

lemma convert_all_returns:
  "list_all (\<lambda>x. \<exists>y. conv x = Inr y) xs \<Longrightarrow>
   \<exists>ys. convert_all conv xs = Inr ys \<and> length ys = length xs"
  by (induction xs) auto

lemma convert_all_raises:
  assumes "\<not> list_all P xs"
    and "\<And>x. P x \<Longrightarrow> \<exists>y. conv x = Inr y"
    and "\<And>x. \<not> P x \<Longrightarrow> \<exists>key. conv x = Inl (KeyError key)"
  shows "\<exists>key. convert_all conv xs = Inl (KeyError key)"
  using assms(1)
proof (induction xs)
  case Nil
  then show ?case by simp
next
  case (Cons x xs)
  show ?case
  proof (cases "P x")
    case False
    from assms(3) [OF this] show ?thesis by auto
  next
    case True
    with Cons.prems have "\<not> list_all P xs" by simp
    from Cons.IH [OF this] assms(2) [OF True] show ?thesis by auto
  qed
qed

lemma to_repository_info_returns:
  "has_required_keys item \<Longrightarrow> \<exists>r. to_repository_info item = Inr r"
  by (auto simp: has_required_keys_def to_repository_info_def dict_item_def)

lemma to_repository_info_v1_returns:
  "has_required_keys_v1 item \<Longrightarrow> \<exists>r. to_repository_info_v1 item = Inr r"
  by (auto simp: has_required_keys_v1_def has_required_keys_def to_repository_info_v1_def dict_item_def)

lemma to_repository_info_raises:
  "\<not> has_required_keys item \<Longrightarrow> \<exists>key. to_repository_info item = Inl (KeyError key)"
  by (auto simp: has_required_keys_def to_repository_info_def dict_item_def bind_result_def
      split: option.splits)

lemma to_repository_info_v1_raises:
  "\<not> has_required_keys_v1 item \<Longrightarrow> \<exists>key. to_repository_info_v1 item = Inl (KeyError key)"
  by (auto simp: has_required_keys_v1_def has_required_keys_def to_repository_info_v1_def
      dict_item_def bind_result_def split: option.splits)

lemma length_slice_to: "0 \<le> limit \<Longrightarrow> length (slice_to limit xs) \<le> nat limit"
  by (simp add: slice_to_def)

lemma set_slice_to: "set (slice_to limit xs) \<subseteq> set xs"
  by (auto simp: slice_to_def dest: in_set_takeD)

lemma list_all_slice_to: "list_all P xs \<Longrightarrow> list_all P (slice_to limit xs)"
  by (auto simp: slice_to_def list_all_iff dest: in_set_takeD)

lemma split_full_name_Inl: "split_full_name s = Inl e \<longleftrightarrow> CHR ''/'' \<notin> set s \<and> e = ValueError"
  by (auto simp: split_full_name_def)

lemma make_tasks_Inl:
  "make_tasks repositories = Inl e \<longleftrightarrow>
     (\<exists>r \<in> set repositories. CHR ''/'' \<notin> set (full_name r)) \<and> e = ValueError"
proof (induction repositories)
  case Nil
  show ?case by simp
next
  case (Cons repo rest)
  show ?case
    by (auto simp: bind_result_Inl_iff Cons.IH split_full_name_Inl split_full_name_def)
qed

lemma make_tasks_total:
  "\<forall>r \<in> set repositories. CHR ''/'' \<in> set (full_name r) \<Longrightarrow>
   make_tasks repositories =
     Inr (map (\<lambda>r. (r, takeWhile (\<lambda>c. c \<noteq> CHR ''/'') (full_name r),
                       tl (dropWhile (\<lambda>c. c \<noteq> CHR ''/'') (full_name r)))) repositories)"
  by (induction repositories) (auto simp: split_full_name_def)

lemma enrich_slashes:
  assumes "\<forall>r \<in> set repositories. CHR ''/'' \<in> set (full_name r)"
  shows "enrich fetch (Inr repositories) =
     \<lparr>returned = Inr (map (\<lambda>r. await_task fetch (r, owner_and_repo r)) repositories),
      fetches = map owner_and_repo repositories\<rparr>"
  using make_tasks_total [OF assms] by (simp add: enrich_def owner_and_repo_def o_def)

lemma enrich_no_slash:
  assumes "\<exists>r \<in> set repositories. CHR ''/'' \<notin> set (full_name r)"
  shows "enrich fetch (Inr repositories) = \<lparr>returned = Inl ValueError, fetches = []\<rparr>"
proof -
  have "make_tasks repositories = Inl ValueError"
    using assms by (simp add: make_tasks_Inl)
  then show ?thesis by (simp add: enrich_def)
qed

lemma enrich_Inr_iff:
  "returned (enrich fetch found) = Inr rs \<longleftrightarrow>
     (\<exists>repositories. found = Inr repositories \<and>
        (\<forall>r \<in> set repositories. CHR ''/'' \<in> set (full_name r)) \<and>
        rs = map (\<lambda>r. await_task fetch (r, owner_and_repo r)) repositories)"
proof (cases found)
  case (Inl e)
  then show ?thesis by (simp add: enrich_def)
next
  case (Inr repositories)
  show ?thesis
  proof (cases "\<forall>r \<in> set repositories. CHR ''/'' \<in> set (full_name r)")
    case True
    then show ?thesis
      using Inr by (auto simp: enrich_slashes)
  next
    case False
    then have "\<exists>r \<in> set repositories. CHR ''/'' \<notin> set (full_name r)" by blast
    then show ?thesis
      using Inr False by (simp add: enrich_no_slash)
  qed
qed

lemma await_task_frame:
  "name (await_task fetch (r, t)) = name r"
  "full_name (await_task fetch (r, t)) = full_name r"
  "description (await_task fetch (r, t)) = description r"
  "stars (await_task fetch (r, t)) = stars r"
  "language (await_task fetch (r, t)) = language r"
  "url (await_task fetch (r, t)) = url r"
  by (cases t; cases "fetch (fst t) (snd t)"; simp add: await_task_def)+

lemma owner_and_repo_await [simp]:
  "owner_and_repo (await_task fetch (r, t)) = owner_and_repo r"
  by (simp add: owner_and_repo_def await_task_frame)

lemma await_task_cong:
  "fetch' (fst t) (snd t) = fetch (fst t) (snd t) \<Longrightarrow> await_task fetch' (r, t) = await_task fetch (r, t)"
  by (cases t) (simp add: await_task_def)

lemma await_task_value:
  "fetch (fst t) (snd t) = Inr x \<Longrightarrow> readme_content (await_task fetch (r, t)) = x"
  by (cases t) (simp add: await_task_def)

lemma await_task_only_readme:
  "await_task fetch (r, t) = r\<lparr>readme_content := readme_content (await_task fetch (r, t))\<rparr>"
  by (cases t; cases "fetch (fst t) (snd t)"; simp add: await_task_def)

lemma enrich_frame:
  assumes slashes: "\<forall>r \<in> set repositories. CHR ''/'' \<in> set (full_name r)"
    and returns: "\<And>owner repo. \<exists>x. fetch owner repo = Inr x"
  shows "\<exists>rs. enrich fetch (Inr repositories) =
               \<lparr>returned = Inr rs, fetches = map owner_and_repo repositories\<rparr> \<and>
            length rs = length repositories \<and>
            (\<forall>i < length repositories.
               fetch (fst (owner_and_repo (repositories ! i))) (snd (owner_and_repo (repositories ! i)))
                 = Inr (readme_content (rs ! i)) \<and>
               rs ! i = (repositories ! i)\<lparr>readme_content := readme_content (rs ! i)\<rparr>)"
proof (intro exI conjI allI impI)
  let ?rs = "map (\<lambda>r. await_task fetch (r, owner_and_repo r)) repositories"
  show "enrich fetch (Inr repositories) =
      \<lparr>returned = Inr ?rs, fetches = map owner_and_repo repositories\<rparr>"
    by (rule enrich_slashes [OF slashes])
  show "length ?rs = length repositories"
    by simp
  fix i assume i: "i < length repositories"
  let ?r = "repositories ! i"
  have nth: "?rs ! i = await_task fetch (?r, owner_and_repo ?r)"
    using i by simp
  obtain x where x: "fetch (fst (owner_and_repo ?r)) (snd (owner_and_repo ?r)) = Inr x"
    using returns by blast
  show "fetch (fst (owner_and_repo ?r)) (snd (owner_and_repo ?r)) = Inr (readme_content (?rs ! i))"
    unfolding nth await_task_value [of fetch "owner_and_repo ?r" x ?r, OF x] by (rule x)
  show "?rs ! i = ?r\<lparr>readme_content := readme_content (?rs ! i)\<rparr>"
    unfolding nth by (rule await_task_only_readme)
qed

subsection \<open>The example inputs, evaluated\<close>

lemma hello_search: "search_repositories hello_api ''test'' 1 = Inr [test_info]"
  by code_simp

lemma hello_search_v1: "search_repositories_v1 hello_api ''test'' 1 = Inr [test_info]"
  by code_simp

lemma hello_collected: "all_repos (collect_pages hello_api ''test'' 1) = [test_item]"
  by code_simp

lemma bare_search: "search_repositories bare_api ''test'' 1 = Inr [bare_info]"
  by code_simp

lemma bare_search_v1: "search_repositories_v1 bare_api ''test'' 1 = Inr [bare_info]"
  by code_simp

lemma ascending_search:
  "search_repositories ascending_api ''test'' 2 = Inr [starred_info 1, starred_info 2]"
  by code_simp

lemma ascending_search_v1:
  "search_repositories_v1 ascending_api ''test'' 2 = Inr [starred_info 2, starred_info 1]"
  by code_simp

lemma descending_search:
  "search_repositories descending_api ''test'' 2 = Inr [starred_info 2, starred_info 1]"
  by code_simp

lemma descending_collected:
  "all_repos (collect_pages descending_api ''test'' 2) = [starred_item 2, starred_item 1]"
  by code_simp

lemma full_requests: "requests (collect_pages full_api ''test'' 100) = [(100, 1), (100, 2)]"
  by code_simp

lemma second_fails_requests: "requests (collect_pages second_fails_api ''test'' 51) = [(100, 1), (100, 2)]"
  by code_simp

lemma second_fails_result:
  "search_repositories second_fails_api ''test'' 51 = Inr (replicate 51 test_info)"
  by code_simp

lemma second_fails_result_v1:
  "search_repositories_v1 second_fails_api ''test'' 51 = Inr (replicate 51 test_info)"
  by code_simp

lemma nameless_requests: "requests (collect_pages nameless_api ''test'' 51) = [(100, 1), (100, 2)]"
  by code_simp

lemma nameless_result:
  "search_repositories nameless_api ''test'' 51 = Inl (KeyError ''name'')"
  by code_simp

lemma nameless_result_v1:
  "search_repositories_v1 nameless_api ''test'' 51 = Inl (KeyError ''name'')"
  by code_simp

lemma two_readmes_search:
  "search_repositories two_readmes_api ''test'' 2 = Inr [starred_info 5, test_info]"
  by code_simp

lemma two_readmes_search_v1:
  "search_repositories_v1 two_readmes_api ''test'' 2 = Inr [test_info, starred_info 5]"
  by code_simp

lemma two_readmes_fetched:
  "get_readme_content two_readmes_api ''o'' ''r'' = Inr (Some ''# plain'')"
  "get_readme_content two_readmes_api ''test-owner'' ''test-repo'' = Inr (Some ''Hello World'')"
  "get_readme_content_v1 two_readmes_api ''o'' ''r'' = Inr (Some ''r readme'')"
  "get_readme_content_v1 two_readmes_api ''test-owner'' ''test-repo'' = Inr (Some ''Hello World'')"
  by code_simp+

subsection \<open>Pagination\<close>

lemma accumulated_0 [simp]: "accumulated self query per_page 0 = []"
  by (simp add: accumulated_def)

lemma accumulated_Suc:
  "accumulated self query per_page (Suc k) =
     accumulated self query per_page k @ delivered self query per_page (Suc k)"
  by (simp add: accumulated_def)

lemma page_failed_delivered:
  "page_failed self query per_page page \<Longrightarrow> delivered self query per_page page = []"
  by (auto simp: page_failed_def delivered_def split: reply.splits body.splits)

lemma fetch_pages_stop:
  "\<not> (int (length (all_repos st)) < limit * 2 \<and> page \<le> 3) \<Longrightarrow>
   fetch_pages self query per_page limit page st = st"
  by (subst fetch_pages.simps) (rule if_not_P)

lemma fetch_pages_step:
  assumes "int (length (all_repos st)) < limit * 2" "page \<le> 3"
  shows "fetch_pages self query per_page limit page st =
     (let st' = st\<lparr>requests := requests st @ [(per_page, page)],
                   all_repos := all_repos st @ delivered self query per_page page\<rparr>
      in if page_failed self query per_page page
            \<or> int (length (delivered self query per_page page)) < per_page
         then st'
         else fetch_pages self query per_page limit (page + 1) st')"
  using assms
  by (subst fetch_pages.simps)
     (auto simp: Let_def delivered_def page_failed_def split: reply.splits body.splits)

lemma fetch_pages_trace:
  assumes "1 \<le> p" "p \<le> 4"
    and "all_repos st = accumulated self q pp (p - 1)"
    and "requests st = map (Pair pp) [1..<p]"
    and "0 < limit * 2 \<longrightarrow> 0 < pp"
  shows "\<exists>n. p - 1 \<le> n \<and> n \<le> 3 \<and>
      requests (fetch_pages self q pp limit p st) = map (Pair pp) [1..<Suc n] \<and>
      all_repos (fetch_pages self q pp limit p st) = accumulated self q pp n \<and>
      (\<forall>k. p \<le> k \<and> k < n \<longrightarrow> \<not> stops_after self q pp limit k) \<and>
      (if p \<le> n then int (length (all_repos st)) < limit * 2 \<and> stops_after self q pp limit n
       else \<not> (int (length (all_repos st)) < limit * 2 \<and> p \<le> 3))"
  using assms
proof (induction "4 - p" arbitrary: p st rule: less_induct)
  case less
  note p = \<open>1 \<le> p\<close> \<open>p \<le> 4\<close>
  note acc = \<open>all_repos st = accumulated self q pp (p - 1)\<close>
  note req = \<open>requests st = map (Pair pp) [1..<p]\<close>
  note pos = \<open>0 < limit * 2 \<longrightarrow> 0 < pp\<close>
  let ?cond = "int (length (all_repos st)) < limit * 2 \<and> p \<le> 3"
  show ?case
  proof (cases ?cond)
    case False
    then have r: "fetch_pages self q pp limit p st = st"
      by (rule fetch_pages_stop)
    have "Suc (p - 1) = p" using p by simp
    then show ?thesis
      using False p acc req unfolding r
      by (intro exI [of _ "p - 1"]) auto
  next
    case True
    then have c: "int (length (all_repos st)) < limit * 2" "p \<le> 3" by simp_all
    then have pp: "0 < pp" using pos by linarith
    let ?st' = "st\<lparr>requests := requests st @ [(pp, p)],
                   all_repos := all_repos st @ delivered self q pp p\<rparr>"
    have sp: "Suc (p - 1) = p" using p by simp
    have acc': "all_repos ?st' = accumulated self q pp p"
      using accumulated_Suc [of self q pp "p - 1"] acc sp by simp
    have req': "requests ?st' = map (Pair pp) [1..<Suc p]"
      using req p by simp
    show ?thesis
    proof (cases "page_failed self q pp p \<or> int (length (delivered self q pp p)) < pp")
      case stop: True
      have r: "fetch_pages self q pp limit p st = ?st'"
        using fetch_pages_step [OF c, of self q pp] stop by (simp add: Let_def)
      have short: "int (length (delivered self q pp p)) < pp"
        using stop pp page_failed_delivered [of self q pp p] by auto
      then have "stops_after self q pp limit p"
        by (simp add: stops_after_def)
      then show ?thesis
        using c acc' req' p unfolding r
        by (intro exI [of _ p]) auto
    next
      case cont: False
      have r: "fetch_pages self q pp limit p st = fetch_pages self q pp limit (p + 1) ?st'"
        using fetch_pages_step [OF c, of self q pp] cont by (simp add: Let_def)
      have full: "\<not> int (length (delivered self q pp p)) < pp" using cont by simp
      have "\<exists>n. (p + 1) - 1 \<le> n \<and> n \<le> 3 \<and>
        requests (fetch_pages self q pp limit (p + 1) ?st') = map (Pair pp) [1..<Suc n] \<and>
        all_repos (fetch_pages self q pp limit (p + 1) ?st') = accumulated self q pp n \<and>
        (\<forall>k. p + 1 \<le> k \<and> k < n \<longrightarrow> \<not> stops_after self q pp limit k) \<and>
        (if p + 1 \<le> n
         then int (length (all_repos ?st')) < limit * 2 \<and> stops_after self q pp limit n
         else \<not> (int (length (all_repos ?st')) < limit * 2 \<and> p + 1 \<le> 3))"
      proof (rule less.hyps)
        show "4 - (p + 1) < 4 - p" using c by simp
        show "1 \<le> p + 1" by simp
        show "p + 1 \<le> 4" using c by simp
        show "all_repos ?st' = accumulated self q pp (p + 1 - 1)" using acc' by simp
        show "requests ?st' = map (Pair pp) [1..<p + 1]" using req' by simp
        show "0 < limit * 2 \<longrightarrow> 0 < pp" by (rule pos)
      qed
      then obtain n where n: "p \<le> n" "n \<le> 3"
        and nreq: "requests (fetch_pages self q pp limit (p + 1) ?st') = map (Pair pp) [1..<Suc n]"
        and nacc: "all_repos (fetch_pages self q pp limit (p + 1) ?st') = accumulated self q pp n"
        and nbefore: "\<forall>k. p + 1 \<le> k \<and> k < n \<longrightarrow> \<not> stops_after self q pp limit k"
        and nlast: "if p + 1 \<le> n
         then int (length (all_repos ?st')) < limit * 2 \<and> stops_after self q pp limit n
         else \<not> (int (length (all_repos ?st')) < limit * 2 \<and> p + 1 \<le> 3)"
        by auto
      have before: "\<not> stops_after self q pp limit k" if "p \<le> k" "k < n" for k
      proof (cases "k = p")
        case True
        then have "p + 1 \<le> n" using that by simp
        then have "int (length (accumulated self q pp p)) < limit * 2"
          using nlast acc' by simp
        moreover have "p \<noteq> 3" using that True n by simp
        ultimately show ?thesis
          using full True by (simp add: stops_after_def)
      next
        case False
        then show ?thesis using that nbefore by simp
      qed
      have last: "stops_after self q pp limit n"
      proof (cases "p + 1 \<le> n")
        case True
        then show ?thesis using nlast by simp
      next
        case False
        then have np: "n = p" using n by simp
        have "\<not> (int (length (accumulated self q pp p)) < limit * 2 \<and> p + 1 \<le> 3)"
          using nlast False acc' by simp
        then have "limit * 2 \<le> int (length (accumulated self q pp p)) \<or> p = 3"
          using c by auto
        then show ?thesis unfolding np by (auto simp: stops_after_def)
      qed
      show ?thesis
        unfolding r
        using n nreq nacc before last c
        by (intro exI [of _ n]) auto
    qed
  qed
qed

lemma page_size_pos: "0 < limit * 2 \<longrightarrow> 0 < page_size limit"
  by (simp add: page_size_def)

lemma collect_pages_trace:
  "\<exists>n. n \<le> 3 \<and>
      requests (collect_pages self domain limit) = map (Pair (page_size limit)) [1..<Suc n] \<and>
      all_repos (collect_pages self domain limit) =
        accumulated self (search_query domain) (page_size limit) n \<and>
      (\<forall>k. 1 \<le> k \<and> k < n \<longrightarrow> \<not> stops_after self (search_query domain) (page_size limit) limit k) \<and>
      (if 1 \<le> n then 0 < limit * 2 \<and> stops_after self (search_query domain) (page_size limit) limit n
       else limit * 2 \<le> 0)"
proof -
  let ?st = "\<lparr>all_repos = [], requests = []\<rparr>"
  have "\<exists>n. 1 - 1 \<le> n \<and> n \<le> 3 \<and>
      requests (fetch_pages self (search_query domain) (page_size limit) limit 1 ?st)
        = map (Pair (page_size limit)) [1..<Suc n] \<and>
      all_repos (fetch_pages self (search_query domain) (page_size limit) limit 1 ?st)
        = accumulated self (search_query domain) (page_size limit) n \<and>
      (\<forall>k. 1 \<le> k \<and> k < n \<longrightarrow> \<not> stops_after self (search_query domain) (page_size limit) limit k) \<and>
      (if 1 \<le> n then int (length (all_repos ?st)) < limit * 2 \<and>
            stops_after self (search_query domain) (page_size limit) limit n
       else \<not> (int (length (all_repos ?st)) < limit * 2 \<and> (1::nat) \<le> 3))"
    by (rule fetch_pages_trace) (simp_all add: page_size_pos)
  then show ?thesis
    unfolding collect_pages_def by (auto split: if_splits)
qed

lemma fetch_pages_cong:
  "get_search self' = get_search self \<Longrightarrow> github_host self' = github_host self \<Longrightarrow>
   fetch_pages self' query per_page limit page st = fetch_pages self query per_page limit page st"
proof (induction self query per_page limit page st rule: fetch_pages.induct)
  case (1 self query per_page limit page st)
  have u: "search_url self' = search_url self"
    using 1 by (simp add: search_url_def)
  show ?case
    apply (subst fetch_pages.simps)
    apply (subst (2) fetch_pages.simps)
    using 1 by (auto simp: u Let_def split: reply.splits body.splits)
qed

lemma search_repositories_cong:
  assumes "get_search self' = get_search self" "github_host self' = github_host self"
  shows "search_repositories self' domain limit = search_repositories self domain limit"
    and "search_repositories_v1 self' domain limit = search_repositories_v1 self domain limit"
  using fetch_pages_cong [OF assms]
  by (simp_all add: search_repositories_def search_repositories_v1_def collect_pages_def)

lemma search_repositories_returns:
  assumes "list_all has_required_keys (all_repos (collect_pages self domain limit))"
  shows "\<exists>rs. search_repositories self domain limit = Inr rs"
proof -
  have "list_all (\<lambda>x. \<exists>y. to_repository_info x = Inr y)
          (slice_to limit (all_repos (collect_pages self domain limit)))"
    using list_all_slice_to [OF assms, of limit] to_repository_info_returns
    by (auto simp: list_all_iff)
  from convert_all_returns [OF this] show ?thesis
    by (auto simp: search_repositories_def)
qed

lemma search_repositories_v1_returns:
  assumes "list_all has_required_keys_v1 (all_repos (collect_pages self domain limit))"
  shows "\<exists>rs. search_repositories_v1 self domain limit = Inr rs"
proof -
  have "list_all (\<lambda>x. \<exists>y. to_repository_info_v1 x = Inr y)
          (all_repos (collect_pages self domain limit))"
    using assms to_repository_info_v1_returns by (auto simp: list_all_iff)
  from convert_all_returns [OF this] show ?thesis
    by (auto simp: search_repositories_v1_def)
qed

lemma search_repositories_returns_slice:
  assumes "list_all has_required_keys
             (slice_to limit (all_repos (collect_pages self domain limit)))"
  shows "\<exists>rs. search_repositories self domain limit = Inr rs"
proof -
  have "list_all (\<lambda>x. \<exists>y. to_repository_info x = Inr y)
          (slice_to limit (all_repos (collect_pages self domain limit)))"
    using assms to_repository_info_returns by (auto simp: list_all_iff)
  from convert_all_returns [OF this] show ?thesis
    by (auto simp: search_repositories_def)
qed

lemma search_repositories_raises:
  assumes "\<not> list_all has_required_keys
             (slice_to limit (all_repos (collect_pages self domain limit)))"
  shows "\<exists>key. search_repositories self domain limit = Inl (KeyError key)"
  using convert_all_raises [of has_required_keys _ to_repository_info, OF assms
      to_repository_info_returns to_repository_info_raises]
  by (simp add: search_repositories_def)

lemma search_repositories_v1_raises:
  assumes "\<not> list_all has_required_keys_v1 (all_repos (collect_pages self domain limit))"
  shows "\<exists>key. search_repositories_v1 self domain limit = Inl (KeyError key)"
proof -
  from convert_all_raises [of has_required_keys_v1 _ to_repository_info_v1, OF assms
      to_repository_info_v1_returns to_repository_info_v1_raises]
  show ?thesis by (auto simp: search_repositories_v1_def)
qed

lemma failed_page_is_last:
  assumes req: "(page_size limit, k) \<in> set (requests (collect_pages self domain limit))"
    and failed: "page_failed self (search_query domain) (page_size limit) k"
  shows "requests (collect_pages self domain limit) = map (Pair (page_size limit)) [1..<Suc k]"
    and "all_repos (collect_pages self domain limit) =
           accumulated self (search_query domain) (page_size limit) (k - 1)"
    and "1 \<le> k" and "k \<le> 3"
    and "\<forall>j. 1 \<le> j \<and> j < k \<longrightarrow> \<not> page_failed self (search_query domain) (page_size limit) j"
proof -
  let ?q = "search_query domain" and ?pp = "page_size limit"
  obtain n where n: "n \<le> 3"
    and nreq: "requests (collect_pages self domain limit) = map (Pair ?pp) [1..<Suc n]"
    and acc: "all_repos (collect_pages self domain limit) = accumulated self ?q ?pp n"
    and before: "\<forall>j. 1 \<le> j \<and> j < n \<longrightarrow> \<not> stops_after self ?q ?pp limit j"
    and last: "if 1 \<le> n then 0 < limit * 2 \<and> stops_after self ?q ?pp limit n
       else limit * 2 \<le> 0"
    using collect_pages_trace [of self domain limit] by blast
  have k: "1 \<le> k" "k \<le> n"
    using req unfolding nreq by auto
  then have "1 \<le> n" by simp
  then have pos: "0 < ?pp" using last page_size_pos [of limit] by simp
  have none: "delivered self ?q ?pp j = []" if "page_failed self ?q ?pp j" for j
    using that by (rule page_failed_delivered)
  have stops: "stops_after self ?q ?pp limit j" if "page_failed self ?q ?pp j" for j
    using none [OF that] pos by (simp add: stops_after_def)
  have "\<not> k < n" using stops [OF failed] before k by blast
  then have kn: "k = n" using k by simp
  show "requests (collect_pages self domain limit) = map (Pair ?pp) [1..<Suc k]"
    using nreq kn by simp
  have "Suc (k - 1) = k" using k by simp
  then have "accumulated self ?q ?pp k = accumulated self ?q ?pp (k - 1)"
    using accumulated_Suc [of self ?q ?pp "k - 1"] none [OF failed] by simp
  then show "all_repos (collect_pages self domain limit) = accumulated self ?q ?pp (k - 1)"
    using acc kn by simp
  show "1 \<le> k" by (rule k)
  show "k \<le> 3" using n kn by simp
  show "\<forall>j. 1 \<le> j \<and> j < k \<longrightarrow> \<not> page_failed self ?q ?pp j"
    using before stops kn by blast
qed

text \<open>
  Claim C5. For every limit the pages are requested with the page size \<open>min 100 (limit * 2)\<close>,
  in sequence from page 1, and at most three of them. The number \<open>n\<close> of pages requested is
  the first \<open>k\<close> after which one of the three conditions holds: \<open>k = 3\<close>, or the items
  accumulated are at least \<open>limit * 2\<close>, or page \<open>k\<close> delivered fewer items than the page size
  (a page that fails delivers none). No page is requested exactly when \<open>limit * 2 \<le> 0\<close>.
\<close>

theorem pagination_policy:
  "page_size limit = min 100 (limit * 2) \<and>
   length (requests (collect_pages self domain limit)) \<le> 3 \<and>
   requests (collect_pages self domain limit) =
     map (Pair (page_size limit)) [1..<Suc (length (requests (collect_pages self domain limit)))] \<and>
   all_repos (collect_pages self domain limit) =
     accumulated self (search_query domain) (page_size limit)
       (length (requests (collect_pages self domain limit))) \<and>
   (length (requests (collect_pages self domain limit)) = 0 \<longleftrightarrow> limit * 2 \<le> 0) \<and>
   (0 < length (requests (collect_pages self domain limit)) \<longrightarrow>
      stops_after self (search_query domain) (page_size limit) limit
        (length (requests (collect_pages self domain limit)))) \<and>
   (\<forall>k. 1 \<le> k \<and> k < length (requests (collect_pages self domain limit)) \<longrightarrow>
      \<not> stops_after self (search_query domain) (page_size limit) limit k)"
proof -
  obtain n where n: "n \<le> 3"
    and req: "requests (collect_pages self domain limit) = map (Pair (page_size limit)) [1..<Suc n]"
    and acc: "all_repos (collect_pages self domain limit) =
        accumulated self (search_query domain) (page_size limit) n"
    and before: "\<forall>k. 1 \<le> k \<and> k < n \<longrightarrow>
        \<not> stops_after self (search_query domain) (page_size limit) limit k"
    and last: "if 1 \<le> n then 0 < limit * 2 \<and>
          stops_after self (search_query domain) (page_size limit) limit n
       else limit * 2 \<le> 0"
    using collect_pages_trace [of self domain limit] by blast
  have len: "length (requests (collect_pages self domain limit)) = n"
    unfolding req by simp
  show ?thesis
    unfolding len
    using n req acc before last
    by (auto simp: page_size_def split: if_splits)
qed

theorem pagination_policy_witness:
  "requests (collect_pages full_api ''test'' 100) = [(100, 1), (100, 2)] \<and>
   page_size 100 = 100 \<and>
   stops_after full_api (search_query ''test'') 100 100 2 \<and>
   \<not> stops_after full_api (search_query ''test'') 100 100 1 \<and>
   length (all_repos (collect_pages full_api ''test'' 100)) = 200"
proof -
  have ps: "page_size 100 = 100" by (simp add: page_size_def)
  have len: "length (requests (collect_pages full_api ''test'' 100)) = 2"
    by (simp add: full_requests)
  have d: "length (delivered full_api (search_query ''test'') 100 k) = 100" for k
    by (simp add: delivered_def full_api_def example_searcher_def dict_get_def)
  have a: "length (accumulated full_api (search_query ''test'') 100 2) = 200"
    by (simp add: accumulated_def d numeral_2_eq_2)
  from pagination_policy [of 100 full_api "''test''"] full_requests
  show ?thesis
    unfolding len ps using a by (simp add: ps)
qed

text \<open>
  Claim C6, amended. When a page that is requested fails (the request raises, the status is not 200, or
  the body cannot be read), it is the last page requested and every page is requested once; the
  pages before it did not fail, and what is accumulated is what they delivered. The failure
  itself raises nothing: the search goes on to convert what is accumulated. In app/core/searcher.py
  it converts the first \<open>limit\<close> items, returns their records when each of them carries the keys
  \<open>name\<close>, \<open>full_name\<close> and \<open>html_url\<close>, and raises \<open>KeyError\<close> otherwise. In
  github_api_searcher.py it converts every accumulated item, returns the records sorted and cut
  to \<open>limit\<close> when each item carries these keys and \<open>stargazers_count\<close>, and raises \<open>KeyError\<close>
  otherwise.
\<close>

theorem failed_page_stops:
  assumes "(page_size limit, k) \<in> set (requests (collect_pages self domain limit))"
    and "page_failed self (search_query domain) (page_size limit) k"
  shows "requests (collect_pages self domain limit) = map (Pair (page_size limit)) [1..<Suc k] \<and>
     distinct (requests (collect_pages self domain limit)) \<and>
     (\<forall>j. 1 \<le> j \<and> j < k \<longrightarrow> \<not> page_failed self (search_query domain) (page_size limit) j) \<and>
     search_repositories self domain limit =
       convert_all to_repository_info
         (slice_to limit (accumulated self (search_query domain) (page_size limit) (k - 1))) \<and>
     search_repositories_v1 self domain limit =
       bind_result
         (convert_all to_repository_info_v1
            (accumulated self (search_query domain) (page_size limit) (k - 1)))
         (\<lambda>repositories. Inr (slice_to limit (sort_stars_reverse repositories))) \<and>
     (list_all has_required_keys
        (slice_to limit (accumulated self (search_query domain) (page_size limit) (k - 1))) \<longrightarrow>
        (\<exists>rs. search_repositories self domain limit = Inr rs)) \<and>
     (\<not> list_all has_required_keys
        (slice_to limit (accumulated self (search_query domain) (page_size limit) (k - 1))) \<longrightarrow>
        (\<exists>key. search_repositories self domain limit = Inl (KeyError key))) \<and>
     (list_all has_required_keys_v1
        (accumulated self (search_query domain) (page_size limit) (k - 1)) \<longrightarrow>
        (\<exists>rs. search_repositories_v1 self domain limit = Inr rs)) \<and>
     (\<not> list_all has_required_keys_v1
        (accumulated self (search_query domain) (page_size limit) (k - 1)) \<longrightarrow>
        (\<exists>key. search_repositories_v1 self domain limit = Inl (KeyError key)))"
proof -
  note f = failed_page_is_last [OF assms]
  let ?acc = "accumulated self (search_query domain) (page_size limit) (k - 1)"
  have d: "distinct (requests (collect_pages self domain limit))"
    unfolding f(1) by (simp add: distinct_map inj_on_def)
  have c1: "search_repositories self domain limit =
       convert_all to_repository_info (slice_to limit ?acc)"
    by (simp add: search_repositories_def f(2))
  have c2: "search_repositories_v1 self domain limit =
       bind_result (convert_all to_repository_info_v1 ?acc)
         (\<lambda>repositories. Inr (slice_to limit (sort_stars_reverse repositories)))"
    by (simp add: search_repositories_v1_def f(2))
  have r1: "list_all has_required_keys (slice_to limit ?acc) \<longrightarrow>
        (\<exists>rs. search_repositories self domain limit = Inr rs)"
    using search_repositories_returns_slice [of limit self domain] by (simp add: f(2))
  have r2: "\<not> list_all has_required_keys (slice_to limit ?acc) \<longrightarrow>
        (\<exists>key. search_repositories self domain limit = Inl (KeyError key))"
    using search_repositories_raises [of limit self domain] by (simp add: f(2))
  have r3: "list_all has_required_keys_v1 ?acc \<longrightarrow>
        (\<exists>rs. search_repositories_v1 self domain limit = Inr rs)"
    using search_repositories_v1_returns [of self domain limit] by (simp add: f(2))
  have r4: "\<not> list_all has_required_keys_v1 ?acc \<longrightarrow>
        (\<exists>key. search_repositories_v1 self domain limit = Inl (KeyError key))"
    using search_repositories_v1_raises [of self domain limit] by (simp add: f(2))
  show ?thesis
    by (intro conjI f(1) d f(5) c1 c2 r1 r2 r3 r4)
qed

theorem failed_page_stops_witness:
  "requests (collect_pages second_fails_api ''test'' 51) = [(100, 1), (100, 2)] \<and>
   page_size 51 = 100 \<and>
   page_failed second_fails_api (search_query ''test'') 100 2 \<and>
   \<not> page_failed second_fails_api (search_query ''test'') 100 1 \<and>
   accumulated second_fails_api (search_query ''test'') 100 1 = replicate 100 test_item \<and>
   has_required_keys test_item \<and> has_required_keys_v1 test_item \<and>
   search_repositories second_fails_api ''test'' 51 = Inr (replicate 51 test_info) \<and>
   search_repositories_v1 second_fails_api ''test'' 51 = Inr (replicate 51 test_info) \<and>
   requests (collect_pages nameless_api ''test'' 51) = [(100, 1), (100, 2)] \<and>
   page_failed nameless_api (search_query ''test'') 100 2 \<and>
   accumulated nameless_api (search_query ''test'') 100 1
     = replicate 100 (test_item\<lparr>item_name := None\<rparr>) \<and>
   \<not> has_required_keys (test_item\<lparr>item_name := None\<rparr>) \<and>
   (\<exists>key. search_repositories nameless_api ''test'' 51 = Inl (KeyError key)) \<and>
   (\<exists>key. search_repositories_v1 nameless_api ''test'' 51 = Inl (KeyError key))"
proof -
  have ps: "page_size 51 = 100" by (simp add: page_size_def)
  have r: "(page_size 51, 2) \<in> set (requests (collect_pages second_fails_api ''test'' 51))"
    by (simp add: second_fails_requests ps)
  have pf: "page_failed second_fails_api (search_query ''test'') (page_size 51) 2"
    by (simp add: page_failed_def second_fails_api_def example_searcher_def)
  have a: "accumulated second_fails_api (search_query ''test'') 100 1 = replicate 100 test_item"
    by (simp add: accumulated_def delivered_def second_fails_api_def example_searcher_def dict_get_def)
  have k: "has_required_keys test_item" "has_required_keys_v1 test_item"
    by (simp_all add: has_required_keys_v1_def has_required_keys_def test_item_def)
  have r': "(page_size 51, 2) \<in> set (requests (collect_pages nameless_api ''test'' 51))"
    by (simp add: nameless_requests ps)
  have pf': "page_failed nameless_api (search_query ''test'') (page_size 51) 2"
    by (simp add: page_failed_def nameless_api_def example_searcher_def)
  have a': "accumulated nameless_api (search_query ''test'') (page_size 51) (2 - 1)
      = replicate 100 (test_item\<lparr>item_name := None\<rparr>)"
    by (simp add: ps accumulated_def delivered_def nameless_api_def example_searcher_def dict_get_def)
  have nk: "\<not> has_required_keys (test_item\<lparr>item_name := None\<rparr>)"
    by (simp add: has_required_keys_def)
  have nk1: "\<not> list_all has_required_keys
      (slice_to 51 (accumulated nameless_api (search_query ''test'') (page_size 51) (2 - 1)))"
    unfolding a' using nk by (simp add: slice_to_def list_all_iff)
  have nk2: "\<not> list_all has_required_keys_v1
      (accumulated nameless_api (search_query ''test'') (page_size 51) (2 - 1))"
    unfolding a' using nk by (simp add: has_required_keys_v1_def list_all_iff)
  note n = failed_page_stops [OF r' pf']
  note e1 = n [THEN conjunct2, THEN conjunct2, THEN conjunct2, THEN conjunct2, THEN conjunct2,
      THEN conjunct2, THEN conjunct1, THEN mp, OF nk1]
  note e2 = n [THEN conjunct2, THEN conjunct2, THEN conjunct2, THEN conjunct2, THEN conjunct2,
      THEN conjunct2, THEN conjunct2, THEN conjunct2, THEN mp, OF nk2]
  from failed_page_stops [OF r pf] second_fails_requests second_fails_result
    second_fails_result_v1 pf a k nameless_requests pf' a' nk e1 e2
  show ?thesis by (simp add: ps)
qed

text \<open>Claim C6 as stated fails: when the first page delivers items without the key \<open>name\<close>
  and the second page answers 500, the second page is requested, it fails, and both searchers
  raise \<open>KeyError\<close>.\<close>

theorem failed_page_stops_counterexample:
  "(page_size 51, 2) \<in> set (requests (collect_pages nameless_api ''test'' 51)) \<and>
   page_failed nameless_api (search_query ''test'') (page_size 51) 2 \<and>
   search_repositories nameless_api ''test'' 51 = Inl (KeyError ''name'') \<and>
   search_repositories_v1 nameless_api ''test'' 51 = Inl (KeyError ''name'')"
proof -
  have ps: "page_size 51 = 100" by (simp add: page_size_def)
  have pf: "page_failed nameless_api (search_query ''test'') (page_size 51) 2"
    by (simp add: page_failed_def nameless_api_def example_searcher_def)
  show ?thesis
    using pf by (simp add: nameless_requests nameless_result nameless_result_v1 ps)
qed

subsection \<open>The records that the search returns\<close>



lemma conforms_converted:
  "to_repository_info item = Inr r \<or> to_repository_info_v1 item = Inr r \<Longrightarrow> item_conforms item \<Longrightarrow>
   0 \<le> stars r \<and> CHR ''/'' \<in> set (full_name r)"
  by (auto simp: to_repository_info_Inr_iff to_repository_info_v1_Inr_iff item_conforms_def
        dict_get_def split: option.splits)

lemma set_sort_stars_reverse [simp]: "set (sort_stars_reverse rs) = set rs"
  by (simp add: sort_stars_reverse_def)

lemma length_sort_stars_reverse [simp]: "length (sort_stars_reverse rs) = length rs"
  by (simp add: sort_stars_reverse_def)

text \<open>
  Claim C1, amended. For a limit that is not negative, \<open>search_repositories\<close> (of either
  searcher), when it returns, returns at most \<open>limit\<close> records, and each is the conversion of
  an item that the upstream service delivered. The star count and the full name are copied from
  that item: they are not negative and of the form owner/name whenever the items delivered are.
\<close>

theorem search_bounds:
  "(0 \<le> limit \<and> search_repositories self domain limit = Inr rs \<longrightarrow>
      length rs \<le> nat limit \<and>
      (\<forall>r \<in> set rs. \<exists>item \<in> set (all_repos (collect_pages self domain limit)).
          to_repository_info item = Inr r) \<and>
      (list_all item_conforms (all_repos (collect_pages self domain limit)) \<longrightarrow>
         (\<forall>r \<in> set rs. 0 \<le> stars r \<and> CHR ''/'' \<in> set (full_name r)))) \<and>
   (0 \<le> limit \<and> search_repositories_v1 self domain limit = Inr rs \<longrightarrow>
      length rs \<le> nat limit \<and>
      (\<forall>r \<in> set rs. \<exists>item \<in> set (all_repos (collect_pages self domain limit)).
          to_repository_info_v1 item = Inr r) \<and>
      (list_all item_conforms (all_repos (collect_pages self domain limit)) \<longrightarrow>
         (\<forall>r \<in> set rs. 0 \<le> stars r \<and> CHR ''/'' \<in> set (full_name r))))"
proof (intro conjI impI)
  let ?all = "all_repos (collect_pages self domain limit)"
  assume a: "0 \<le> limit \<and> search_repositories self domain limit = Inr rs"
  then have conv: "convert_all to_repository_info (slice_to limit ?all) = Inr rs"
    by (simp add: search_repositories_def)
  have "length rs = length (slice_to limit ?all)"
    using conv by (rule convert_all_length)
  then show "length rs \<le> nat limit"
    using a length_slice_to [of limit ?all] by simp
  have origin: "\<exists>item \<in> set ?all. to_repository_info item = Inr r" if "r \<in> set rs" for r
    using convert_all_origin [OF conv that] set_slice_to [of limit ?all] by blast
  then show "\<forall>r \<in> set rs. \<exists>item \<in> set ?all. to_repository_info item = Inr r"
    by blast
  assume "list_all item_conforms ?all"
  then have c: "\<forall>item \<in> set ?all. item_conforms item" by (simp add: list_all_iff)
  show "\<forall>r \<in> set rs. 0 \<le> stars r \<and> CHR ''/'' \<in> set (full_name r)"
  proof
    fix r assume "r \<in> set rs"
    from origin [OF this] obtain item where "item \<in> set ?all" "to_repository_info item = Inr r"
      by blast
    then show "0 \<le> stars r \<and> CHR ''/'' \<in> set (full_name r)"
      using c conforms_converted [of item r] by blast
  qed
next
  let ?all = "all_repos (collect_pages self domain limit)"
  assume a: "0 \<le> limit \<and> search_repositories_v1 self domain limit = Inr rs"
  then obtain rs0 where conv: "convert_all to_repository_info_v1 ?all = Inr rs0"
    and rs: "rs = slice_to limit (sort_stars_reverse rs0)"
    by (auto simp: search_repositories_v1_def bind_result_Inr_iff)
  show "length rs \<le> nat limit"
    unfolding rs using a by (simp add: length_slice_to)
  have sub: "set rs \<subseteq> set rs0"
    unfolding rs using set_slice_to [of limit "sort_stars_reverse rs0"] by simp
  have origin: "\<exists>item \<in> set ?all. to_repository_info_v1 item = Inr r" if "r \<in> set rs" for r
  proof -
    from that sub have "r \<in> set rs0" by blast
    from convert_all_origin [OF conv this] show ?thesis .
  qed
  then show "\<forall>r \<in> set rs. \<exists>item \<in> set ?all. to_repository_info_v1 item = Inr r"
    by blast
  assume "list_all item_conforms ?all"
  then have c: "\<forall>item \<in> set ?all. item_conforms item" by (simp add: list_all_iff)
  show "\<forall>r \<in> set rs. 0 \<le> stars r \<and> CHR ''/'' \<in> set (full_name r)"
  proof
    fix r assume "r \<in> set rs"
    from origin [OF this] obtain item where "item \<in> set ?all" "to_repository_info_v1 item = Inr r"
      by blast
    then show "0 \<le> stars r \<and> CHR ''/'' \<in> set (full_name r)"
      using c conforms_converted [of item r] by blast
  qed
qed

theorem search_bounds_witness:
  "search_repositories hello_api ''test'' 1 = Inr [test_info] \<and>
   search_repositories_v1 hello_api ''test'' 1 = Inr [test_info] \<and>
   all_repos (collect_pages hello_api ''test'' 1) = [test_item] \<and>
   item_conforms test_item \<and>
   length [test_info] \<le> nat 1 \<and> 0 \<le> stars test_info \<and> CHR ''/'' \<in> set (full_name test_info)"
proof -
  have c: "item_conforms test_item"
    by (simp add: item_conforms_def test_item_def dict_get_def)
  from search_bounds [of 1 hello_api "''test''" "[test_info]"] hello_search hello_search_v1
    hello_collected c
  show ?thesis by simp
qed

text \<open>Claim C1 as stated fails: the code checks neither the star count nor the full name.\<close>

theorem search_bounds_counterexample:
  "valid_limit 1 \<and>
   search_repositories bare_api ''test'' 1 = Inr [bare_info] \<and>
   search_repositories_v1 bare_api ''test'' 1 = Inr [bare_info] \<and>
   stars bare_info < 0 \<and> CHR ''/'' \<notin> set (full_name bare_info)"
  using bare_search bare_search_v1 by (simp add: valid_limit_def bare_info_def)

lemma sort_stars_reverse_descending: "stars_descending (sort_stars_reverse rs)"
proof -
  have "sorted (map stars (sort_key stars (rev rs)))" by (rule sorted_sort_key)
  then have "sorted_wrt (\<lambda>a b. stars a \<le> stars b) (sort_key stars (rev rs))"
    by (simp add: sorted_map)
  then show ?thesis
    by (simp add: stars_descending_def sort_stars_reverse_def sorted_wrt_rev)
qed

lemma stars_descending_slice_to: "stars_descending rs \<Longrightarrow> stars_descending (slice_to limit rs)"
  by (simp add: stars_descending_def slice_to_def sorted_wrt_take)

text \<open>
  Claim C2, amended. The searcher of github_api_searcher.py sorts: whatever the pages
  deliver, its result is in descending order of stars. The searcher of
  app/core/searcher.py does not sort: its result has the star counts of the first \<open>limit\<close>
  items in the order of arrival, so it is in descending order whenever the items arrive so.
\<close>

theorem search_order:
  "(search_repositories_v1 self domain limit = Inr rs \<longrightarrow> stars_descending rs) \<and>
   (search_repositories self domain limit = Inr rs \<longrightarrow>
      map stars rs = map item_stars (slice_to limit (all_repos (collect_pages self domain limit))) \<and>
      (sorted_wrt (\<lambda>a b. item_stars b \<le> item_stars a) (all_repos (collect_pages self domain limit))
         \<longrightarrow> stars_descending rs))"
proof (intro conjI impI)
  assume "search_repositories_v1 self domain limit = Inr rs"
  then obtain rs0 where "rs = slice_to limit (sort_stars_reverse rs0)"
    by (auto simp: search_repositories_v1_def bind_result_Inr_iff)
  then show "stars_descending rs"
    using sort_stars_reverse_descending [of rs0] by (simp add: stars_descending_slice_to)
next
  let ?all = "all_repos (collect_pages self domain limit)"
  assume "search_repositories self domain limit = Inr rs"
  then have conv: "convert_all to_repository_info (slice_to limit ?all) = Inr rs"
    by (simp add: search_repositories_def)
  have "stars r = item_stars raw" if "to_repository_info raw = Inr r" for raw r
    using that by (simp add: to_repository_info_Inr_iff item_stars_def)
  with conv show m: "map stars rs = map item_stars (slice_to limit ?all)"
    by (rule convert_all_map)
  assume "sorted_wrt (\<lambda>a b. item_stars b \<le> item_stars a) ?all"
  then have "sorted_wrt (\<lambda>a b. item_stars b \<le> item_stars a) (slice_to limit ?all)"
    by (simp add: slice_to_def sorted_wrt_take)
  then have "sorted_wrt (\<lambda>a b. b \<le> a) (map item_stars (slice_to limit ?all))"
    by (simp add: sorted_wrt_map)
  then have "sorted_wrt (\<lambda>a b. b \<le> a) (map stars rs)"
    by (simp only: m)
  then show "stars_descending rs"
    by (simp add: stars_descending_def sorted_wrt_map)
qed

theorem search_order_witness:
  "search_repositories_v1 ascending_api ''test'' 2 = Inr [starred_info 2, starred_info 1] \<and>
   stars_descending [starred_info 2, starred_info 1] \<and>
   search_repositories descending_api ''test'' 2 = Inr [starred_info 2, starred_info 1] \<and>
   all_repos (collect_pages descending_api ''test'' 2) = [starred_item 2, starred_item 1] \<and>
   sorted_wrt (\<lambda>a b. item_stars b \<le> item_stars a) [starred_item 2, starred_item 1]"
proof -
  have s: "sorted_wrt (\<lambda>a b. item_stars b \<le> item_stars a) [starred_item 2, starred_item 1]"
    by (simp add: item_stars_def starred_item_def dict_get_def)
  from search_order [of ascending_api "''test''" 2 "[starred_info 2, starred_info 1]"]
    search_order [of descending_api "''test''" 2 "[starred_info 2, starred_info 1]"]
    ascending_search_v1 descending_search descending_collected s
  show ?thesis by simp
qed

text \<open>Claim C2 as stated fails for app/core/searcher.py: items that arrive in ascending order
  are returned in ascending order.\<close>

theorem search_order_counterexample:
  "search_repositories ascending_api ''test'' 2 = Inr [starred_info 1, starred_info 2] \<and>
   \<not> stars_descending [starred_info 1, starred_info 2]"
  using ascending_search by (simp add: stars_descending_def starred_info_def)

subsection \<open>The base64 decoder inverts the standard encoding\<close>

lemma of_char_b64_char:
  "v < 64 \<Longrightarrow> (of_char (b64_char v) :: nat) =
     (if v < 26 then 65 + v else if v < 52 then 71 + v else if v < 62 then v - 4
      else if v = 62 then 43 else 47)"
  by (auto simp: b64_char_def)

lemma b64_value_char: "v < 64 \<Longrightarrow> b64_value (b64_char v) = Some v"
  by (auto simp: b64_value_def of_char_b64_char Let_def)

lemma b64_char_not_pad: "v < 64 \<Longrightarrow> b64_char v \<noteq> CHR ''=''"
proof
  assume v: "v < 64" and "b64_char v = CHR ''=''"
  then have "(of_char (b64_char v) :: nat) = 61" by simp
  with v show False by (auto simp: of_char_b64_char split: if_splits)
qed

lemma b64_char_ascii: "v < 64 \<Longrightarrow> (of_char (b64_char v) :: nat) < 128"
  by (auto simp: of_char_b64_char)

lemma a2b_base64_data:
  assumes "v < 64"
  shows "a2b_base64 quad_pos leftchar pads out (b64_char v # cs) =
     (if quad_pos = 0 then a2b_base64 1 v 0 out cs
      else if quad_pos = 1 then
        a2b_base64 2 (v mod 16) 0 (out @ [char_of (leftchar * 4 + v div 16)]) cs
      else if quad_pos = 2 then
        a2b_base64 3 (v mod 4) 0 (out @ [char_of (leftchar * 16 + v div 4)]) cs
      else a2b_base64 0 0 0 (out @ [char_of (leftchar * 64 + v)]) cs)"
  using b64_value_char [OF assms] b64_char_not_pad [OF assms] by simp

lemma a2b_base64_pad:
  "a2b_base64 quad_pos leftchar pads out (CHR ''='' # cs) =
     (if 2 \<le> quad_pos \<and> 4 \<le> quad_pos + (pads + 1) then Inr out
      else a2b_base64 quad_pos leftchar (if 2 \<le> quad_pos then pads + 1 else pads) out cs)"
  by simp

lemma first_sextet: "(of_char a :: nat) div 4 < 64"
proof -
  have "(of_char a :: nat) < 4 * 64" using nat_of_char_less_256 [of a] by simp
  then show ?thesis by (simp only: less_mult_imp_div_less)
qed

lemma byte_parts:
  fixes x :: nat
  shows "x div 4 * 4 + x mod 4 = x" "x div 16 * 16 + x mod 16 = x" "x div 64 * 64 + x mod 64 = x"
  by simp_all

lemma group_first:
  fixes x y :: nat
  assumes "y < 256"
  shows "x div 4 * 4 + (x mod 4 * 16 + y div 16) div 16 = x"
    and "(x mod 4 * 16 + y div 16) mod 16 = y div 16"
    and "x mod 4 * 16 + y div 16 < 64"
proof -
  have y: "y div 16 < 16" using assms by simp
  then show "x div 4 * 4 + (x mod 4 * 16 + y div 16) div 16 = x" by simp
  show "(x mod 4 * 16 + y div 16) mod 16 = y div 16" using y by simp
  have "x mod 4 < 4" by simp
  then have "x mod 4 * 16 \<le> 48" by simp
  with y show "x mod 4 * 16 + y div 16 < 64" by simp
qed

lemma group_second:
  fixes y z :: nat
  assumes "z < 256"
  shows "y div 16 * 16 + (y mod 16 * 4 + z div 64) div 4 = y"
    and "(y mod 16 * 4 + z div 64) mod 4 = z div 64"
    and "y mod 16 * 4 + z div 64 < 64"
proof -
  have z: "z div 64 < 4" using assms by simp
  then show "y div 16 * 16 + (y mod 16 * 4 + z div 64) div 4 = y" by simp
  show "(y mod 16 * 4 + z div 64) mod 4 = z div 64" using z by simp
  have "y mod 16 < 16" by simp
  then have "y mod 16 * 4 \<le> 60" by simp
  with z show "y mod 16 * 4 + z div 64 < 64" by simp
qed

lemma byte_high:
  fixes c :: char
  shows "(of_char c :: nat) div 16 div 16 = 0" "(of_char c :: nat) div 16 mod 16 = of_char c div 16"
    "(of_char c :: nat) div 64 div 4 = 0" "(of_char c :: nat) div 64 mod 4 = of_char c div 64"
proof -
  have small: "x div 16 < 16 \<and> x div 64 < 4" if "x < 256" for x :: nat
    using that by arith
  have a: "(of_char c :: nat) div 16 < 16" and b: "(of_char c :: nat) div 64 < 4"
    using small [OF nat_of_char_less_256 [of c]] by blast+
  from a show "(of_char c :: nat) div 16 div 16 = 0"
    "(of_char c :: nat) div 16 mod 16 = of_char c div 16" by simp_all
  from b show "(of_char c :: nat) div 64 div 4 = 0"
    "(of_char c :: nat) div 64 mod 4 = of_char c div 64" by simp_all
qed

lemma a2b_base64_encode:
  "a2b_base64 0 leftchar pads out (b64encode bs) = Inr (out @ bs)"
proof (induction bs arbitrary: leftchar pads out rule: b64encode.induct)
  case 1
  show ?case by simp
next
  case (2 a)
  let ?x = "of_char a :: nat"
  have v1: "?x div 4 < 64" by (rule first_sextet)
  have v2: "?x mod 4 * 16 < 64" using group_first(3) [of 0 ?x] by simp
  have b: "?x div 4 * 4 + ?x mod 4 * 16 div 16 = ?x" by simp
  show ?case
    by (simp del: a2b_base64.simps(2) add: a2b_base64_pad Let_def a2b_base64_data [OF v1] a2b_base64_data [OF v2] b)
next
  case (3 a b)
  let ?x = "of_char a :: nat" and ?y = "of_char b :: nat"
  have y: "?y < 256" by simp
  have v1: "?x div 4 < 64" by (rule first_sextet)
  note g = group_first [OF y, of ?x]
  have v3: "?y mod 16 * 4 < 64" using group_second(3) [of 0 ?y] by simp
  have b3: "?y div 16 * 16 + ?y mod 16 * 4 div 4 = ?y" by simp
  show ?case
    by (simp del: a2b_base64.simps(2) add: a2b_base64_pad Let_def a2b_base64_data [OF v1] a2b_base64_data [OF g(3)]
        a2b_base64_data [OF v3] g(1) g(2) b3 byte_high)
next
  case (4 a b c rest)
  let ?x = "of_char a :: nat" and ?y = "of_char b :: nat" and ?z = "of_char c :: nat"
  have y: "?y < 256" and z: "?z < 256" by simp_all
  have v1: "?x div 4 < 64" by (rule first_sextet)
  note g = group_first [OF y, of ?x]
  note h = group_second [OF z, of ?y]
  have v4: "?z mod 64 < 64" by simp
  have b4: "?z div 64 * 64 + ?z mod 64 = ?z" by simp
  show ?case
    by (simp del: a2b_base64.simps(2) add: a2b_base64_pad Let_def a2b_base64_data [OF v1] a2b_base64_data [OF g(3)]
        a2b_base64_data [OF h(3)] a2b_base64_data [OF v4] g(1) g(2) h(1) h(2) b4 byte_high "4.IH")
qed

lemma b64encode_ascii: "c \<in> set (b64encode bs) \<Longrightarrow> (of_char c :: nat) < 128"
proof (induction bs rule: b64encode.induct)
  case 1
  then show ?case by simp
next
  case (2 a)
  let ?x = "of_char a :: nat"
  have v1: "?x div 4 < 64" by (rule first_sextet)
  have v2: "?x mod 4 * 16 < 64" using group_first(3) [of 0 ?x] by simp
  from 2 show ?case
    using b64_char_ascii [OF v1] b64_char_ascii [OF v2] by (auto simp: Let_def)
next
  case (3 a b)
  let ?x = "of_char a :: nat" and ?y = "of_char b :: nat"
  have y: "?y < 256" by simp
  have v1: "?x div 4 < 64" by (rule first_sextet)
  note g = group_first [OF y, of ?x]
  have v3: "?y mod 16 * 4 < 64" using group_second(3) [of 0 ?y] by simp
  from 3 show ?case
    using b64_char_ascii [OF v1] b64_char_ascii [OF g(3)] b64_char_ascii [OF v3]
    by (auto simp: Let_def)
next
  case (4 a b c rest)
  let ?x = "of_char a :: nat" and ?y = "of_char b :: nat" and ?z = "of_char c :: nat"
  have y: "?y < 256" and z: "?z < 256" by simp_all
  have v1: "?x div 4 < 64" by (rule first_sextet)
  note g = group_first [OF y, of ?x]
  note h = group_second [OF z, of ?y]
  have v4: "?z mod 64 < 64" by simp
  from 4 show ?case
    using b64_char_ascii [OF v1] b64_char_ascii [OF g(3)] b64_char_ascii [OF h(3)]
      b64_char_ascii [OF v4]
    by (auto simp: Let_def)
qed

lemma b64decode_b64encode: "b64decode (b64encode bs) = Inr bs"
proof -
  have "\<not> (\<exists>c \<in> set (b64encode bs). 128 \<le> (of_char c :: nat))"
    using b64encode_ascii [of _ bs] by (auto simp: not_le)
  then show ?thesis
    using a2b_base64_encode [of 0 0 "[]" bs] by (simp add: b64decode_def)
qed

subsection \<open>The README fetchers\<close>

lemma readme_loop_v1_returns: "\<exists>r. readme_loop_v1 self owner repo files = Inr r"
  by (induction files) (auto split: sum.splits option.splits)

lemma readme_loop_v1_absent:
  "\<forall>f \<in> set files. \<forall>c. contents_try self owner repo f \<noteq> Inr (Some c) \<Longrightarrow>
   readme_loop_v1 self owner repo files = Inr None"
  by (induction files) (auto split: sum.splits option.splits)

lemma get_readme_content_returns: "\<exists>r. get_readme_content self owner repo = Inr r"
  by (simp add: get_readme_content_def split: sum.splits)

lemma get_readme_content_cong:
  assumes "github_host self' = github_host self"
    and "get_readme self' (readme_url self owner repo) = get_readme self (readme_url self owner repo)"
  shows "get_readme_content self' owner repo = get_readme_content self owner repo"
  using assms by (simp add: get_readme_content_def readme_try_def readme_url_def)

lemma get_readme_content_absent:
  "get_readme self (readme_url self owner repo) = Transport_Exception \<Longrightarrow>
     get_readme_content self owner repo = Inr None"
  "get_readme self (readme_url self owner repo) = Reply status body \<Longrightarrow> status \<noteq> 200 \<Longrightarrow>
     get_readme_content self owner repo = Inr None"
  "get_readme self (readme_url self owner repo) = Reply 200 Malformed_Body \<Longrightarrow>
     get_readme_content self owner repo = Inr None"
  by (simp_all add: get_readme_content_def readme_try_def)

lemma get_readme_content_undecodable:
  assumes "get_readme self (readme_url self owner repo) = Reply 200 (Body data)"
    and "dict_get (body_encoding data) ''base64'' = ''base64''"
    and "bind_result (b64decode (dict_get (body_content data) [])) decode_utf8 = Inl e"
  shows "get_readme_content self owner repo = Inr None"
proof -
  have "readme_try self owner repo = Inl e"
    using assms by (auto simp: readme_try_def Let_def bind_result_Inl_iff)
  then show ?thesis by (simp add: get_readme_content_def)
qed

lemma get_readme_content_v1_absent:
  assumes h: "\<forall>f \<in> set readme_files.
        case get_contents self (contents_url self owner repo f) of
          Transport_Exception \<Rightarrow> True
        | Reply status body \<Rightarrow> status \<noteq> 200 \<or> body = Malformed_Body"
  shows "get_readme_content_v1 self owner repo = Inr None"
proof -
  have "\<forall>f \<in> set readme_files. \<forall>c. contents_try self owner repo f \<noteq> Inr (Some c)"
  proof (intro ballI allI)
    fix f c
    assume "f \<in> set readme_files"
    with h have "case get_contents self (contents_url self owner repo f) of
          Transport_Exception \<Rightarrow> True
        | Reply status body \<Rightarrow> status \<noteq> 200 \<or> body = Malformed_Body"
      by blast
    then show "contents_try self owner repo f \<noteq> Inr (Some c)"
      by (auto simp: contents_try_def split: reply.splits body.splits)
  qed
  then show ?thesis
    unfolding get_readme_content_v1_def by (rule readme_loop_v1_absent)
qed

lemma contents_failed_iff:
  "contents_failed self owner repo f \<longleftrightarrow> (\<forall>c. contents_try self owner repo f \<noteq> Inr (Some c))"
  by (auto simp: contents_failed_def contents_try_def
      split: reply.splits body.splits option.splits)

lemma readme_loop_v1_None_iff:
  "readme_loop_v1 self owner repo files = Inr None \<longleftrightarrow>
     (\<forall>f \<in> set files. contents_failed self owner repo f)"
  by (induction files) (auto simp: contents_failed_iff split: sum.splits option.splits)

lemma get_readme_content_v1_None_iff:
  "get_readme_content_v1 self owner repo = Inr None \<longleftrightarrow>
     (\<forall>f \<in> set readme_files. contents_failed self owner repo f)"
  unfolding get_readme_content_v1_def by (rule readme_loop_v1_None_iff)

lemma contents_try_cong:
  assumes host: "github_host other = github_host self"
    and contents: "get_contents other (contents_url self owner repo f)
        = get_contents self (contents_url self owner repo f)"
    and raw: "case get_contents self (contents_url self owner repo f) of
             Transport_Exception \<Rightarrow> True
           | Reply status body \<Rightarrow>
               (case body of
                  Malformed_Body \<Rightarrow> True
                | Body data \<Rightarrow>
                    (case dict_get data None of
                       None \<Rightarrow> True
                     | Some download_url \<Rightarrow> get_raw other download_url = get_raw self download_url))"
  shows "contents_try other owner repo f = contents_try self owner repo f"
proof -
  have u: "contents_url other owner repo f = contents_url self owner repo f"
    using host by (simp add: contents_url_def)
  show ?thesis
    using raw unfolding contents_try_def u contents
    by (auto split: reply.splits body.splits option.splits)
qed

lemma readme_loop_v1_cong:
  "\<forall>f \<in> set files. contents_try other owner repo f = contents_try self owner repo f \<Longrightarrow>
   readme_loop_v1 other owner repo files = readme_loop_v1 self owner repo files"
  by (induction files) (simp_all split: sum.splits option.splits)

lemma get_readme_content_v1_cong:
  assumes "same_readme_replies_v1 other self owner repo"
  shows "get_readme_content_v1 other owner repo = get_readme_content_v1 self owner repo"
proof -
  have "\<forall>f \<in> set readme_files. contents_try other owner repo f = contents_try self owner repo f"
  proof
    fix f assume "f \<in> set readme_files"
    with assms show "contents_try other owner repo f = contents_try self owner repo f"
      by (intro contents_try_cong) (simp_all add: same_readme_replies_v1_def list_all_iff)
  qed
  then show ?thesis
    unfolding get_readme_content_v1_def by (rule readme_loop_v1_cong)
qed

text \<open>
  Claim C7. When the \<open>readme\<close> endpoint answers 200 with a body that carries \<open>content\<close> and
  \<open>encoding\<close>, \<open>get_readme_content\<close> returns the text that the base64 content decodes to
  (as UTF-8) if \<open>encoding\<close> is \<open>base64\<close>, and the content unchanged otherwise. Content that
  does not decode gives \<open>None\<close>. In particular the standard base64 encoding of a well-formed
  UTF-8 text is read back as that text.
\<close>

theorem readme_decoding:
  assumes "get_readme self (readme_url self owner repo) =
     Reply 200 (Body \<lparr>body_content = Some content, body_encoding = Some encoding\<rparr>)"
  shows "get_readme_content self owner repo =
     (if encoding = ''base64''
      then (case bind_result (b64decode content) decode_utf8 of
              Inr text \<Rightarrow> Inr (Some text)
            | Inl e \<Rightarrow> Inr None)
      else Inr (Some content)) \<and>
     (\<forall>text. encoding = ''base64'' \<and> content = b64encode text \<and> valid_utf8 text \<longrightarrow>
        get_readme_content self owner repo = Inr (Some text))"
proof -
  have eq: "get_readme_content self owner repo =
     (if encoding = ''base64''
      then (case bind_result (b64decode content) decode_utf8 of
              Inr text \<Rightarrow> Inr (Some text)
            | Inl e \<Rightarrow> Inr None)
      else Inr (Some content))"
    using assms
    by (simp add: get_readme_content_def readme_try_def dict_get_def bind_result_def
        split: sum.splits)
  have "bind_result (b64decode (b64encode plain)) decode_utf8 = Inr plain" if "valid_utf8 plain" for plain
    using that by (simp add: b64decode_b64encode decode_utf8_def)
  with eq show ?thesis by auto
qed

text \<open>The scenario of the test \<^verbatim>\<open>test_get_readme_content_success\<close>, and a README
  delivered as plain text.\<close>

theorem readme_decoding_witness:
  "get_readme hello_api (readme_url hello_api ''test-owner'' ''test-repo'') =
     Reply 200 (Body \<lparr>body_content = Some ''SGVsbG8gV29ybGQ='', body_encoding = Some ''base64''\<rparr>) \<and>
   b64encode ''Hello World'' = ''SGVsbG8gV29ybGQ='' \<and> valid_utf8 ''Hello World'' \<and>
   get_readme_content hello_api ''test-owner'' ''test-repo'' = Inr (Some ''Hello World'') \<and>
   get_readme plain_api (readme_url plain_api ''test-owner'' ''test-repo'') =
     Reply 200 (Body \<lparr>body_content = Some ''# plain'', body_encoding = Some ''utf-8''\<rparr>) \<and>
   get_readme_content plain_api ''test-owner'' ''test-repo'' = Inr (Some ''# plain'')"
proof -
  have h: "get_readme hello_api (readme_url hello_api ''test-owner'' ''test-repo'') =
     Reply 200 (Body \<lparr>body_content = Some ''SGVsbG8gV29ybGQ='', body_encoding = Some ''base64''\<rparr>)"
    by (simp add: hello_api_def example_searcher_def hello_body_def)
  have p: "get_readme plain_api (readme_url plain_api ''test-owner'' ''test-repo'') =
     Reply 200 (Body \<lparr>body_content = Some ''# plain'', body_encoding = Some ''utf-8''\<rparr>)"
    by (simp add: plain_api_def example_searcher_def)
  have e: "b64encode ''Hello World'' = ''SGVsbG8gV29ybGQ=''"
    by code_simp
  have v: "valid_utf8 ''Hello World''"
    by code_simp
  have r1: "get_readme_content hello_api ''test-owner'' ''test-repo'' = Inr (Some ''Hello World'')"
    using readme_decoding [OF h, THEN conjunct2, THEN spec, of "''Hello World''"] e v by simp
  have r2: "get_readme_content plain_api ''test-owner'' ''test-repo'' = Inr (Some ''# plain'')"
    using readme_decoding [OF p, THEN conjunct1] by simp
  from h p e v r1 r2 show ?thesis by simp
qed

lemma batch_isolation:
  assumes same: "get_search other = get_search self" "github_host other = github_host self"
    and ret: "returned (search_and_get_readmes self domain limit) = Inr rs"
    and i: "i < length rs"
    and reply: "get_readme other (readme_url self (fst (owner_and_repo (rs ! i))) (snd (owner_and_repo (rs ! i))))
              = get_readme self (readme_url self (fst (owner_and_repo (rs ! i))) (snd (owner_and_repo (rs ! i))))"
  shows "\<exists>rs'. returned (search_and_get_readmes other domain limit) = Inr rs' \<and>
           length rs' = length rs \<and> rs' ! i = rs ! i"
proof -
  from ret have "\<exists>repositories. search_repositories self domain limit = Inr repositories \<and>
        (\<forall>r \<in> set repositories. CHR ''/'' \<in> set (full_name r)) \<and>
        rs = map (\<lambda>r. await_task (get_readme_content self) (r, owner_and_repo r)) repositories"
    by (simp only: search_and_get_readmes_def enrich_Inr_iff)
  then obtain repositories where
    found: "search_repositories self domain limit = Inr repositories"
    and slashes: "\<forall>r \<in> set repositories. CHR ''/'' \<in> set (full_name r)"
    and rs: "rs = map (\<lambda>r. await_task (get_readme_content self) (r, owner_and_repo r)) repositories"
    by blast
  have found': "search_repositories other domain limit = Inr repositories"
    using search_repositories_cong(1) [OF same] found by simp
  let ?rs' = "map (\<lambda>r. await_task (get_readme_content other) (r, owner_and_repo r)) repositories"
  have ret': "returned (search_and_get_readmes other domain limit) = Inr ?rs'"
    by (simp only: search_and_get_readmes_def found' enrich_slashes [OF slashes] enriched.simps)
  have len: "i < length repositories" using i rs by simp
  have oar: "owner_and_repo (rs ! i) = owner_and_repo (repositories ! i)"
    using len rs by simp
  let ?o = "fst (owner_and_repo (repositories ! i))"
  let ?n = "snd (owner_and_repo (repositories ! i))"
  have r2: "get_readme other (readme_url self ?o ?n) = get_readme self (readme_url self ?o ?n)"
    using reply by (simp only: oar)
  have "get_readme_content other ?o ?n = get_readme_content self ?o ?n"
    using same(2) r2 by (rule get_readme_content_cong)
  then have "await_task (get_readme_content other) (repositories ! i, owner_and_repo (repositories ! i))
           = await_task (get_readme_content self) (repositories ! i, owner_and_repo (repositories ! i))"
    by (rule await_task_cong)
  then have eq: "?rs' ! i = rs ! i"
    using len by (simp only: rs nth_map)
  have "length ?rs' = length rs" by (simp only: rs length_map)
  with ret' eq show ?thesis by blast
qed

lemma batch_isolation_v1:
  assumes same: "get_search other = get_search self" "github_host other = github_host self"
    and ret: "returned (search_and_get_readmes_v1 self domain limit) = Inr rs"
    and i: "i < length rs"
    and reply: "same_readme_replies_v1 other self
        (fst (owner_and_repo (rs ! i))) (snd (owner_and_repo (rs ! i)))"
  shows "\<exists>rs'. returned (search_and_get_readmes_v1 other domain limit) = Inr rs' \<and>
           length rs' = length rs \<and> rs' ! i = rs ! i"
proof -
  from ret have "\<exists>repositories. search_repositories_v1 self domain limit = Inr repositories \<and>
        (\<forall>r \<in> set repositories. CHR ''/'' \<in> set (full_name r)) \<and>
        rs = map (\<lambda>r. await_task (get_readme_content_v1 self) (r, owner_and_repo r)) repositories"
    by (simp only: search_and_get_readmes_v1_def enrich_Inr_iff)
  then obtain repositories where
    found: "search_repositories_v1 self domain limit = Inr repositories"
    and slashes: "\<forall>r \<in> set repositories. CHR ''/'' \<in> set (full_name r)"
    and rs: "rs = map (\<lambda>r. await_task (get_readme_content_v1 self) (r, owner_and_repo r)) repositories"
    by blast
  have found': "search_repositories_v1 other domain limit = Inr repositories"
    using search_repositories_cong(2) [OF same] found by simp
  let ?rs' = "map (\<lambda>r. await_task (get_readme_content_v1 other) (r, owner_and_repo r)) repositories"
  have ret': "returned (search_and_get_readmes_v1 other domain limit) = Inr ?rs'"
    by (simp only: search_and_get_readmes_v1_def found' enrich_slashes [OF slashes] enriched.simps)
  have len: "i < length repositories" using i rs by simp
  have oar: "owner_and_repo (rs ! i) = owner_and_repo (repositories ! i)"
    using len rs by simp
  let ?o = "fst (owner_and_repo (repositories ! i))"
  let ?n = "snd (owner_and_repo (repositories ! i))"
  have r2: "same_readme_replies_v1 other self ?o ?n"
    using reply by (simp only: oar)
  have "get_readme_content_v1 other ?o ?n = get_readme_content_v1 self ?o ?n"
    using r2 by (rule get_readme_content_v1_cong)
  then have "await_task (get_readme_content_v1 other) (repositories ! i, owner_and_repo (repositories ! i))
           = await_task (get_readme_content_v1 self) (repositories ! i, owner_and_repo (repositories ! i))"
    by (rule await_task_cong)
  then have eq: "?rs' ! i = rs ! i"
    using len by (simp only: rs nth_map)
  have "length ?rs' = length rs" by (simp only: rs length_map)
  with ret' eq show ?thesis by blast
qed

text \<open>
  Claim C3. \<open>get_readme_content\<close> (of either searcher) always returns and never raises. That
  of app/core/searcher.py returns \<open>None\<close> when the request raises, when the status is not 200,
  when the body is malformed, and when the content does not decode. That of
  github_api_searcher.py returns \<open>None\<close> exactly when the attempt fails for each of the four
  file names: the \<open>contents\<close> request raises, its status is not 200, its body is malformed or
  names no download address, or the download raises, has a status other than 200 or cannot be
  read. The result for a repository depends only on the replies to its own requests: whatever
  the replies for the other repositories are, also within one call of
  \<open>search_and_get_readmes\<close>, the record of this repository is the same. This holds for both
  searchers.
\<close>

theorem readme_fetch_never_raises:
  "(\<exists>r. get_readme_content self owner repo = Inr r) \<and>
   (\<exists>r. get_readme_content_v1 self owner repo = Inr r) \<and>
   (get_readme self (readme_url self owner repo) = Transport_Exception \<longrightarrow>
      get_readme_content self owner repo = Inr None) \<and>
   (\<forall>status body. get_readme self (readme_url self owner repo) = Reply status body \<and> status \<noteq> 200 \<longrightarrow>
      get_readme_content self owner repo = Inr None) \<and>
   (get_readme self (readme_url self owner repo) = Reply 200 Malformed_Body \<longrightarrow>
      get_readme_content self owner repo = Inr None) \<and>
   (\<forall>data e. get_readme self (readme_url self owner repo) = Reply 200 (Body data) \<and>
        dict_get (body_encoding data) ''base64'' = ''base64'' \<and>
        bind_result (b64decode (dict_get (body_content data) [])) decode_utf8 = Inl e \<longrightarrow>
      get_readme_content self owner repo = Inr None) \<and>
   ((\<forall>f \<in> set readme_files.
        case get_contents self (contents_url self owner repo f) of
          Transport_Exception \<Rightarrow> True
        | Reply status body \<Rightarrow> status \<noteq> 200 \<or> body = Malformed_Body) \<longrightarrow>
      get_readme_content_v1 self owner repo = Inr None) \<and>
   (\<forall>other. get_readme other (readme_url self owner repo) = get_readme self (readme_url self owner repo) \<and>
        github_host other = github_host self \<longrightarrow>
      get_readme_content other owner repo = get_readme_content self owner repo) \<and>
   (\<forall>other rs i. get_search other = get_search self \<and> github_host other = github_host self \<and>
        returned (search_and_get_readmes self domain limit) = Inr rs \<and> i < length rs \<and>
        get_readme other (readme_url self (fst (owner_and_repo (rs ! i))) (snd (owner_and_repo (rs ! i))))
          = get_readme self (readme_url self (fst (owner_and_repo (rs ! i))) (snd (owner_and_repo (rs ! i)))) \<longrightarrow>
      (\<exists>rs'. returned (search_and_get_readmes other domain limit) = Inr rs' \<and>
             length rs' = length rs \<and> rs' ! i = rs ! i)) \<and>
   (get_readme_content_v1 self owner repo = Inr None \<longleftrightarrow>
      (\<forall>f \<in> set readme_files. contents_failed self owner repo f)) \<and>
   (\<forall>other. same_readme_replies_v1 other self owner repo \<longrightarrow>
      get_readme_content_v1 other owner repo = get_readme_content_v1 self owner repo) \<and>
   (\<forall>other rs i. get_search other = get_search self \<and> github_host other = github_host self \<and>
        returned (search_and_get_readmes_v1 self domain limit) = Inr rs \<and> i < length rs \<and>
        same_readme_replies_v1 other self
          (fst (owner_and_repo (rs ! i))) (snd (owner_and_repo (rs ! i))) \<longrightarrow>
      (\<exists>rs'. returned (search_and_get_readmes_v1 other domain limit) = Inr rs' \<and>
             length rs' = length rs \<and> rs' ! i = rs ! i))"
proof -
  have c1: "\<exists>r. get_readme_content self owner repo = Inr r"
    by (rule get_readme_content_returns)
  have c2: "\<exists>r. get_readme_content_v1 self owner repo = Inr r"
    unfolding get_readme_content_v1_def by (rule readme_loop_v1_returns)
  have c3: "get_readme self (readme_url self owner repo) = Transport_Exception \<longrightarrow>
      get_readme_content self owner repo = Inr None"
    using get_readme_content_absent(1) by blast
  have c4: "\<forall>status body. get_readme self (readme_url self owner repo) = Reply status body \<and>
        status \<noteq> 200 \<longrightarrow> get_readme_content self owner repo = Inr None"
    using get_readme_content_absent(2) by blast
  have c5: "get_readme self (readme_url self owner repo) = Reply 200 Malformed_Body \<longrightarrow>
      get_readme_content self owner repo = Inr None"
    using get_readme_content_absent(3) by blast
  have c6: "\<forall>data e. get_readme self (readme_url self owner repo) = Reply 200 (Body data) \<and>
        dict_get (body_encoding data) ''base64'' = ''base64'' \<and>
        bind_result (b64decode (dict_get (body_content data) [])) decode_utf8 = Inl e \<longrightarrow>
      get_readme_content self owner repo = Inr None"
    using get_readme_content_undecodable by blast
  have c7: "(\<forall>f \<in> set readme_files.
        case get_contents self (contents_url self owner repo f) of
          Transport_Exception \<Rightarrow> True
        | Reply status body \<Rightarrow> status \<noteq> 200 \<or> body = Malformed_Body) \<longrightarrow>
      get_readme_content_v1 self owner repo = Inr None"
  proof
    assume "\<forall>f \<in> set readme_files.
        case get_contents self (contents_url self owner repo f) of
          Transport_Exception \<Rightarrow> True
        | Reply status body \<Rightarrow> status \<noteq> 200 \<or> body = Malformed_Body"
    then show "get_readme_content_v1 self owner repo = Inr None"
      by (rule get_readme_content_v1_absent)
  qed
  have c8: "\<forall>other. get_readme other (readme_url self owner repo)
          = get_readme self (readme_url self owner repo) \<and>
        github_host other = github_host self \<longrightarrow>
      get_readme_content other owner repo = get_readme_content self owner repo"
  proof (intro allI impI)
    fix other :: searcher
    assume "get_readme other (readme_url self owner repo) = get_readme self (readme_url self owner repo) \<and>
        github_host other = github_host self"
    then show "get_readme_content other owner repo = get_readme_content self owner repo"
      using get_readme_content_cong by blast
  qed
  have c9: "\<forall>other rs i. get_search other = get_search self \<and> github_host other = github_host self \<and>
        returned (search_and_get_readmes self domain limit) = Inr rs \<and> i < length rs \<and>
        get_readme other (readme_url self (fst (owner_and_repo (rs ! i))) (snd (owner_and_repo (rs ! i))))
          = get_readme self (readme_url self (fst (owner_and_repo (rs ! i))) (snd (owner_and_repo (rs ! i)))) \<longrightarrow>
      (\<exists>rs'. returned (search_and_get_readmes other domain limit) = Inr rs' \<and>
             length rs' = length rs \<and> rs' ! i = rs ! i)"
  proof (intro allI impI)
    fix other :: searcher and rs i
    assume "get_search other = get_search self \<and> github_host other = github_host self \<and>
        returned (search_and_get_readmes self domain limit) = Inr rs \<and> i < length rs \<and>
        get_readme other (readme_url self (fst (owner_and_repo (rs ! i))) (snd (owner_and_repo (rs ! i))))
          = get_readme self (readme_url self (fst (owner_and_repo (rs ! i))) (snd (owner_and_repo (rs ! i))))"
    then show "\<exists>rs'. returned (search_and_get_readmes other domain limit) = Inr rs' \<and>
             length rs' = length rs \<and> rs' ! i = rs ! i"
      using batch_isolation [of other self domain limit rs i] by blast
  qed
  have c10: "get_readme_content_v1 self owner repo = Inr None \<longleftrightarrow>
      (\<forall>f \<in> set readme_files. contents_failed self owner repo f)"
    by (rule get_readme_content_v1_None_iff)
  have c11: "\<forall>other. same_readme_replies_v1 other self owner repo \<longrightarrow>
      get_readme_content_v1 other owner repo = get_readme_content_v1 self owner repo"
    using get_readme_content_v1_cong by blast
  have c12: "\<forall>other rs i. get_search other = get_search self \<and> github_host other = github_host self \<and>
        returned (search_and_get_readmes_v1 self domain limit) = Inr rs \<and> i < length rs \<and>
        same_readme_replies_v1 other self
          (fst (owner_and_repo (rs ! i))) (snd (owner_and_repo (rs ! i))) \<longrightarrow>
      (\<exists>rs'. returned (search_and_get_readmes_v1 other domain limit) = Inr rs' \<and>
             length rs' = length rs \<and> rs' ! i = rs ! i)"
  proof (intro allI impI)
    fix other :: searcher and rs i
    assume "get_search other = get_search self \<and> github_host other = github_host self \<and>
        returned (search_and_get_readmes_v1 self domain limit) = Inr rs \<and> i < length rs \<and>
        same_readme_replies_v1 other self
          (fst (owner_and_repo (rs ! i))) (snd (owner_and_repo (rs ! i)))"
    then show "\<exists>rs'. returned (search_and_get_readmes_v1 other domain limit) = Inr rs' \<and>
             length rs' = length rs \<and> rs' ! i = rs ! i"
      using batch_isolation_v1 [of other self domain limit rs i] by blast
  qed
  show ?thesis
    by (intro conjI c1 c2 c3 c4 c5 c6 c7 c8 c9 c10 c11 c12)
qed

theorem readme_fetch_never_raises_witness:
  "get_readme not_found_api (readme_url not_found_api ''test-owner'' ''test-repo'') = Reply 404 Malformed_Body \<and>
   get_readme_content not_found_api ''test-owner'' ''test-repo'' = Inr None \<and>
   get_readme unreachable_api (readme_url unreachable_api ''test-owner'' ''test-repo'') = Transport_Exception \<and>
   get_readme_content unreachable_api ''test-owner'' ''test-repo'' = Inr None \<and>
   bind_result (b64decode ''SGVsbA='') decode_utf8 = Inl BinasciiError \<and>
   get_readme_content garbled_api ''test-owner'' ''test-repo'' = Inr None \<and>
   get_readme_content_v1 hello_api ''test-owner'' ''test-repo'' = Inr None \<and>
   returned (search_and_get_readmes two_api ''test'' 2) =
     Inr [test_info\<lparr>readme_content := Some ''Hello World''\<rparr>,
          \<lparr>name = ''r'', full_name = ''o/r'', description = None, stars = 5, language = None,
           url = ''https://github.com/o/r'', readme_content = Some ''Hello World''\<rparr>] \<and>
   (\<exists>rs'. returned (search_and_get_readmes half_broken_api ''test'' 2) = Inr rs' \<and>
          length rs' = 2 \<and> rs' ! 0 = test_info\<lparr>readme_content := Some ''Hello World''\<rparr>) \<and>
   get_contents raw_broken_api (contents_url raw_broken_api ''o'' ''r'' ''README.rst'') =
     Reply 200 (Body (Some (Some ''https://raw.example/o/r/README.rst''))) \<and>
   get_raw raw_broken_api ''https://raw.example/o/r/README.rst'' = Transport_Exception \<and>
   list_all (contents_failed raw_broken_api ''o'' ''r'') readme_files \<and>
   get_readme_content_v1 raw_broken_api ''o'' ''r'' = Inr None \<and>
   get_readme_content_v1 two_readmes_api ''o'' ''r'' = Inr (Some ''r readme'') \<and>
   \<not> contents_failed two_readmes_api ''o'' ''r'' ''README.rst'' \<and>
   same_readme_replies_v1 raw_broken_api two_readmes_api ''test-owner'' ''test-repo'' \<and>
   get_readme_content_v1 raw_broken_api ''test-owner'' ''test-repo'' = Inr (Some ''Hello World'') \<and>
   returned (search_and_get_readmes_v1 two_readmes_api ''test'' 2) =
     Inr [test_info\<lparr>readme_content := Some ''Hello World''\<rparr>,
          (starred_info 5)\<lparr>readme_content := Some ''r readme''\<rparr>] \<and>
   returned (search_and_get_readmes_v1 raw_broken_api ''test'' 2) =
     Inr [test_info\<lparr>readme_content := Some ''Hello World''\<rparr>,
          (starred_info 5)\<lparr>readme_content := None\<rparr>] \<and>
   (\<exists>rs'. returned (search_and_get_readmes_v1 raw_broken_api ''test'' 2) = Inr rs' \<and>
          length rs' = 2 \<and> rs' ! 0 = test_info\<lparr>readme_content := Some ''Hello World''\<rparr>)"
proof -
  note m = readme_fetch_never_raises
  note tail = m [THEN conjunct2, THEN conjunct2, THEN conjunct2, THEN conjunct2,
      THEN conjunct2, THEN conjunct2, THEN conjunct2, THEN conjunct2]
  have nf: "get_readme not_found_api (readme_url not_found_api ''test-owner'' ''test-repo'') = Reply 404 Malformed_Body"
    by (simp add: not_found_api_def example_searcher_def)
  have ur: "get_readme unreachable_api (readme_url unreachable_api ''test-owner'' ''test-repo'') = Transport_Exception"
    by (simp add: unreachable_api_def example_searcher_def)
  have gb: "get_readme garbled_api (readme_url garbled_api ''test-owner'' ''test-repo'') =
      Reply 200 (Body \<lparr>body_content = Some ''SGVsbA='', body_encoding = Some ''base64''\<rparr>)"
    by (simp add: garbled_api_def example_searcher_def)
  have dec: "bind_result (b64decode ''SGVsbA='') decode_utf8 = Inl BinasciiError"
    by code_simp
  have nf': "get_readme not_found_api (readme_url not_found_api ''test-owner'' ''test-repo'')
      = Reply 404 Malformed_Body \<and> (404 :: nat) \<noteq> 200"
    using nf by simp
  have c1: "get_readme_content not_found_api ''test-owner'' ''test-repo'' = Inr None"
    by (rule m [THEN conjunct2, THEN conjunct2, THEN conjunct2, THEN conjunct1,
          THEN spec, THEN spec, THEN mp, OF nf'])
  have c2: "get_readme_content unreachable_api ''test-owner'' ''test-repo'' = Inr None"
    by (rule m [THEN conjunct2, THEN conjunct2, THEN conjunct1, THEN mp, OF ur])
  have gb': "get_readme garbled_api (readme_url garbled_api ''test-owner'' ''test-repo'') =
      Reply 200 (Body \<lparr>body_content = Some ''SGVsbA='', body_encoding = Some ''base64''\<rparr>) \<and>
      dict_get (body_encoding \<lparr>body_content = Some ''SGVsbA='', body_encoding = Some ''base64''\<rparr>)
        ''base64'' = ''base64'' \<and>
      bind_result (b64decode (dict_get (body_content
        \<lparr>body_content = Some ''SGVsbA='', body_encoding = Some ''base64''\<rparr>) [])) decode_utf8
        = Inl BinasciiError"
    using gb dec by (simp add: dict_get_def)
  have c3: "get_readme_content garbled_api ''test-owner'' ''test-repo'' = Inr None"
    by (rule m [THEN conjunct2, THEN conjunct2, THEN conjunct2, THEN conjunct2, THEN conjunct2,
          THEN conjunct1, THEN spec, THEN spec, THEN mp, OF gb'])
  have h4: "\<forall>f \<in> set readme_files.
        case get_contents hello_api (contents_url hello_api ''test-owner'' ''test-repo'' f) of
          Transport_Exception \<Rightarrow> True
        | Reply status body \<Rightarrow> status \<noteq> 200 \<or> body = Malformed_Body"
    by (simp add: hello_api_def example_searcher_def)
  have c4: "get_readme_content_v1 hello_api ''test-owner'' ''test-repo'' = Inr None"
    by (rule m [THEN conjunct2, THEN conjunct2, THEN conjunct2, THEN conjunct2, THEN conjunct2,
          THEN conjunct2, THEN conjunct1, THEN mp, OF h4])
  have two: "returned (search_and_get_readmes two_api ''test'' 2) =
     Inr [test_info\<lparr>readme_content := Some ''Hello World''\<rparr>,
          \<lparr>name = ''r'', full_name = ''o/r'', description = None, stars = 5, language = None,
           url = ''https://github.com/o/r'', readme_content = Some ''Hello World''\<rparr>]"
    by code_simp
  have same: "get_search half_broken_api = get_search two_api"
    "github_host half_broken_api = github_host two_api"
    by (simp_all add: half_broken_api_def two_api_def example_searcher_def)
  have own: "owner_and_repo (test_info\<lparr>readme_content := Some ''Hello World''\<rparr>) = (''test-owner'', ''test-repo'')"
    by (simp add: owner_and_repo_def test_info_def)
  have reply: "get_readme half_broken_api (readme_url two_api ''test-owner'' ''test-repo'')
      = get_readme two_api (readme_url two_api ''test-owner'' ''test-repo'')"
    by (simp add: half_broken_api_def two_api_def example_searcher_def readme_url_def)
  let ?rs = "[test_info\<lparr>readme_content := Some ''Hello World''\<rparr>,
          \<lparr>name = ''r'', full_name = ''o/r'', description = None, stars = 5, language = None,
           url = ''https://github.com/o/r'', readme_content = Some ''Hello World''\<rparr>]"
  note batch = m [of two_api "[]" "[]" "''test''" 2,
      THEN conjunct2, THEN conjunct2, THEN conjunct2, THEN conjunct2,
      THEN conjunct2, THEN conjunct2, THEN conjunct2, THEN conjunct2, THEN conjunct1,
      THEN spec, THEN spec, THEN spec, of half_broken_api ?rs 0]
  have pre: "get_search half_broken_api = get_search two_api \<and>
      github_host half_broken_api = github_host two_api \<and>
      returned (search_and_get_readmes two_api ''test'' 2) = Inr ?rs \<and> 0 < length ?rs \<and>
      get_readme half_broken_api (readme_url two_api (fst (owner_and_repo (?rs ! 0))) (snd (owner_and_repo (?rs ! 0))))
        = get_readme two_api (readme_url two_api (fst (owner_and_repo (?rs ! 0))) (snd (owner_and_repo (?rs ! 0))))"
    using same two own reply by simp
  have c5: "\<exists>rs'. returned (search_and_get_readmes half_broken_api ''test'' 2) = Inr rs' \<and>
          length rs' = 2 \<and> rs' ! 0 = test_info\<lparr>readme_content := Some ''Hello World''\<rparr>"
    using batch [THEN mp, OF pre] by (simp add: numeral_2_eq_2)
  have gc: "get_contents raw_broken_api (contents_url raw_broken_api ''o'' ''r'' ''README.rst'') =
     Reply 200 (Body (Some (Some ''https://raw.example/o/r/README.rst'')))"
    by (simp add: raw_broken_api_def two_readmes_api_def contents_url_def)
  have gr: "get_raw raw_broken_api ''https://raw.example/o/r/README.rst'' = Transport_Exception"
    by (simp add: raw_broken_api_def)
  have failed: "list_all (contents_failed raw_broken_api ''o'' ''r'') readme_files"
    by code_simp
  have failed': "\<forall>f \<in> set readme_files. contents_failed raw_broken_api ''o'' ''r'' f"
    using failed by (simp only: list_all_iff)
  have v1: "get_readme_content_v1 raw_broken_api ''o'' ''r'' = Inr None"
    using tail [THEN conjunct2, THEN conjunct1, THEN iffD2, OF failed'] .
  have v2: "get_readme_content_v1 two_readmes_api ''o'' ''r'' = Inr (Some ''r readme'')"
    by (rule two_readmes_fetched)
  have v3: "\<not> contents_failed two_readmes_api ''o'' ''r'' ''README.rst''"
    by code_simp
  have v4: "same_readme_replies_v1 raw_broken_api two_readmes_api ''test-owner'' ''test-repo''"
    by code_simp
  have v5: "get_readme_content_v1 raw_broken_api ''test-owner'' ''test-repo'' = Inr (Some ''Hello World'')"
    using tail [THEN conjunct2, THEN conjunct2, THEN conjunct1, THEN spec, THEN mp, OF v4]
    by (simp only: two_readmes_fetched)
  let ?rs1 = "[test_info\<lparr>readme_content := Some ''Hello World''\<rparr>,
          (starred_info 5)\<lparr>readme_content := Some ''r readme''\<rparr>]"
  have v6: "returned (search_and_get_readmes_v1 two_readmes_api ''test'' 2) = Inr ?rs1"
    by code_simp
  have v7: "returned (search_and_get_readmes_v1 raw_broken_api ''test'' 2) =
     Inr [test_info\<lparr>readme_content := Some ''Hello World''\<rparr>,
          (starred_info 5)\<lparr>readme_content := None\<rparr>]"
    by code_simp
  have same1: "get_search raw_broken_api = get_search two_readmes_api"
    "github_host raw_broken_api = github_host two_readmes_api"
    by (simp_all add: raw_broken_api_def)
  have pre1: "get_search raw_broken_api = get_search two_readmes_api \<and>
      github_host raw_broken_api = github_host two_readmes_api \<and>
      returned (search_and_get_readmes_v1 two_readmes_api ''test'' 2) = Inr ?rs1 \<and>
      0 < length ?rs1 \<and>
      same_readme_replies_v1 raw_broken_api two_readmes_api
        (fst (owner_and_repo (?rs1 ! 0))) (snd (owner_and_repo (?rs1 ! 0)))"
    using same1 v6 v4 own by simp
  have v8: "\<exists>rs'. returned (search_and_get_readmes_v1 raw_broken_api ''test'' 2) = Inr rs' \<and>
          length rs' = 2 \<and> rs' ! 0 = test_info\<lparr>readme_content := Some ''Hello World''\<rparr>"
    using m [of two_readmes_api "[]" "[]" "''test''" 2,
        THEN conjunct2, THEN conjunct2, THEN conjunct2, THEN conjunct2,
        THEN conjunct2, THEN conjunct2, THEN conjunct2, THEN conjunct2,
        THEN conjunct2, THEN conjunct2, THEN conjunct2,
        THEN spec, THEN spec, THEN spec, THEN mp, OF pre1]
    by (simp add: numeral_2_eq_2)
  show ?thesis
    by (intro conjI nf c1 ur c2 dec c3 c4 two c5 gc gr failed v1 v2 v3 v4 v5 v6 v7 v8)
qed

subsection \<open>Search and enrichment\<close>

text \<open>
  Claim C4, amended. When every record found has a slash in its \<open>full_name\<close>,
  \<open>search_and_get_readmes\<close> (of either searcher) returns as many records as the search found,
  in the same order, and exactly one README fetch is awaited per record, in order, for the owner
  and the repository that the split of its \<open>full_name\<close> yields. The \<open>readme_content\<close> of each
  record returned is what \<open>get_readme_content\<close> returns for that owner and repository, and the
  record differs from the record found in no other field.
\<close>

theorem enrichment_frame:
  "(search_repositories self domain limit = Inr repositories \<and>
    (\<forall>r \<in> set repositories. CHR ''/'' \<in> set (full_name r)) \<longrightarrow>
      (\<exists>rs. search_and_get_readmes self domain limit =
               \<lparr>returned = Inr rs, fetches = map owner_and_repo repositories\<rparr> \<and>
            length rs = length repositories \<and>
            (\<forall>i < length repositories.
               get_readme_content self (fst (owner_and_repo (repositories ! i)))
                   (snd (owner_and_repo (repositories ! i)))
                 = Inr (readme_content (rs ! i)) \<and>
               rs ! i = (repositories ! i)\<lparr>readme_content := readme_content (rs ! i)\<rparr>))) \<and>
   (search_repositories_v1 self domain limit = Inr repositories \<and>
    (\<forall>r \<in> set repositories. CHR ''/'' \<in> set (full_name r)) \<longrightarrow>
      (\<exists>rs. search_and_get_readmes_v1 self domain limit =
               \<lparr>returned = Inr rs, fetches = map owner_and_repo repositories\<rparr> \<and>
            length rs = length repositories \<and>
            (\<forall>i < length repositories.
               get_readme_content_v1 self (fst (owner_and_repo (repositories ! i)))
                   (snd (owner_and_repo (repositories ! i)))
                 = Inr (readme_content (rs ! i)) \<and>
               rs ! i = (repositories ! i)\<lparr>readme_content := readme_content (rs ! i)\<rparr>)))"
proof (intro conjI impI)
  assume "search_repositories self domain limit = Inr repositories \<and>
    (\<forall>r \<in> set repositories. CHR ''/'' \<in> set (full_name r))"
  then have found: "search_repositories self domain limit = Inr repositories"
    and slashes: "\<forall>r \<in> set repositories. CHR ''/'' \<in> set (full_name r)"
    by simp_all
  show "\<exists>rs. search_and_get_readmes self domain limit =
               \<lparr>returned = Inr rs, fetches = map owner_and_repo repositories\<rparr> \<and>
            length rs = length repositories \<and>
            (\<forall>i < length repositories.
               get_readme_content self (fst (owner_and_repo (repositories ! i)))
                   (snd (owner_and_repo (repositories ! i)))
                 = Inr (readme_content (rs ! i)) \<and>
               rs ! i = (repositories ! i)\<lparr>readme_content := readme_content (rs ! i)\<rparr>)"
    unfolding search_and_get_readmes_def found
    by (rule enrich_frame [OF slashes get_readme_content_returns])
next
  assume "search_repositories_v1 self domain limit = Inr repositories \<and>
    (\<forall>r \<in> set repositories. CHR ''/'' \<in> set (full_name r))"
  then have found: "search_repositories_v1 self domain limit = Inr repositories"
    and slashes: "\<forall>r \<in> set repositories. CHR ''/'' \<in> set (full_name r)"
    by simp_all
  have returns: "\<exists>x. get_readme_content_v1 self owner repo = Inr x" for owner repo
    unfolding get_readme_content_v1_def by (rule readme_loop_v1_returns)
  show "\<exists>rs. search_and_get_readmes_v1 self domain limit =
               \<lparr>returned = Inr rs, fetches = map owner_and_repo repositories\<rparr> \<and>
            length rs = length repositories \<and>
            (\<forall>i < length repositories.
               get_readme_content_v1 self (fst (owner_and_repo (repositories ! i)))
                   (snd (owner_and_repo (repositories ! i)))
                 = Inr (readme_content (rs ! i)) \<and>
               rs ! i = (repositories ! i)\<lparr>readme_content := readme_content (rs ! i)\<rparr>)"
    unfolding search_and_get_readmes_v1_def found
    by (rule enrich_frame [OF slashes returns])
qed

theorem enrichment_frame_witness:
  "search_repositories two_readmes_api ''test'' 2 = Inr [starred_info 5, test_info] \<and>
   CHR ''/'' \<in> set (full_name (starred_info 5)) \<and> CHR ''/'' \<in> set (full_name test_info) \<and>
   get_readme_content two_readmes_api ''o'' ''r'' = Inr (Some ''# plain'') \<and>
   get_readme_content two_readmes_api ''test-owner'' ''test-repo'' = Inr (Some ''Hello World'') \<and>
   search_and_get_readmes two_readmes_api ''test'' 2 =
     \<lparr>returned = Inr [(starred_info 5)\<lparr>readme_content := Some ''# plain''\<rparr>,
                     test_info\<lparr>readme_content := Some ''Hello World''\<rparr>],
      fetches = [(''o'', ''r''), (''test-owner'', ''test-repo'')]\<rparr> \<and>
   search_repositories_v1 two_readmes_api ''test'' 2 = Inr [test_info, starred_info 5] \<and>
   get_readme_content_v1 two_readmes_api ''test-owner'' ''test-repo'' = Inr (Some ''Hello World'') \<and>
   get_readme_content_v1 two_readmes_api ''o'' ''r'' = Inr (Some ''r readme'') \<and>
   search_and_get_readmes_v1 two_readmes_api ''test'' 2 =
     \<lparr>returned = Inr [test_info\<lparr>readme_content := Some ''Hello World''\<rparr>,
                     (starred_info 5)\<lparr>readme_content := Some ''r readme''\<rparr>],
      fetches = [(''test-owner'', ''test-repo''), (''o'', ''r'')]\<rparr>"
proof -
  have s: "CHR ''/'' \<in> set (full_name (starred_info 5))" "CHR ''/'' \<in> set (full_name test_info)"
    by (simp_all add: starred_info_def test_info_def)
  have o: "owner_and_repo (starred_info 5) = (''o'', ''r'')"
    "owner_and_repo test_info = (''test-owner'', ''test-repo'')"
    by (simp_all add: owner_and_repo_def starred_info_def test_info_def)
  have pre: "search_repositories two_readmes_api ''test'' 2 = Inr [starred_info 5, test_info] \<and>
      (\<forall>r \<in> set [starred_info 5, test_info]. CHR ''/'' \<in> set (full_name r))"
    using two_readmes_search s by simp
  have pre_v1: "search_repositories_v1 two_readmes_api ''test'' 2 = Inr [test_info, starred_info 5] \<and>
      (\<forall>r \<in> set [test_info, starred_info 5]. CHR ''/'' \<in> set (full_name r))"
    using two_readmes_search_v1 s by simp
  from enrichment_frame [THEN conjunct1, THEN mp, OF pre]
  obtain rs where e: "search_and_get_readmes two_readmes_api ''test'' 2 =
        \<lparr>returned = Inr rs, fetches = map owner_and_repo [starred_info 5, test_info]\<rparr>"
    and len: "length rs = length [starred_info 5, test_info]"
    and each: "\<forall>i < length [starred_info 5, test_info].
        get_readme_content two_readmes_api (fst (owner_and_repo ([starred_info 5, test_info] ! i)))
            (snd (owner_and_repo ([starred_info 5, test_info] ! i)))
          = Inr (readme_content (rs ! i)) \<and>
        rs ! i = ([starred_info 5, test_info] ! i)\<lparr>readme_content := readme_content (rs ! i)\<rparr>"
    by blast
  have r0: "rs ! 0 = (starred_info 5)\<lparr>readme_content := Some ''# plain''\<rparr>"
    using each [THEN spec, of 0] by (simp add: o two_readmes_fetched)
  have r1: "rs ! 1 = test_info\<lparr>readme_content := Some ''Hello World''\<rparr>"
    using each [THEN spec, of 1] by (simp add: o two_readmes_fetched)
  have rs: "rs = [(starred_info 5)\<lparr>readme_content := Some ''# plain''\<rparr>,
                  test_info\<lparr>readme_content := Some ''Hello World''\<rparr>]"
    using len r0 r1 by (simp add: list_eq_iff_nth_eq less_Suc_eq numeral_2_eq_2)
  have v2: "search_and_get_readmes two_readmes_api ''test'' 2 =
     \<lparr>returned = Inr [(starred_info 5)\<lparr>readme_content := Some ''# plain''\<rparr>,
                     test_info\<lparr>readme_content := Some ''Hello World''\<rparr>],
      fetches = [(''o'', ''r''), (''test-owner'', ''test-repo'')]\<rparr>"
    using e by (simp add: rs o)
  from enrichment_frame [THEN conjunct2, THEN mp, OF pre_v1]
  obtain rs' where e': "search_and_get_readmes_v1 two_readmes_api ''test'' 2 =
        \<lparr>returned = Inr rs', fetches = map owner_and_repo [test_info, starred_info 5]\<rparr>"
    and len': "length rs' = length [test_info, starred_info 5]"
    and each': "\<forall>i < length [test_info, starred_info 5].
        get_readme_content_v1 two_readmes_api (fst (owner_and_repo ([test_info, starred_info 5] ! i)))
            (snd (owner_and_repo ([test_info, starred_info 5] ! i)))
          = Inr (readme_content (rs' ! i)) \<and>
        rs' ! i = ([test_info, starred_info 5] ! i)\<lparr>readme_content := readme_content (rs' ! i)\<rparr>"
    by blast
  have r0': "rs' ! 0 = test_info\<lparr>readme_content := Some ''Hello World''\<rparr>"
    using each' [THEN spec, of 0] by (simp add: o two_readmes_fetched)
  have r1': "rs' ! 1 = (starred_info 5)\<lparr>readme_content := Some ''r readme''\<rparr>"
    using each' [THEN spec, of 1] by (simp add: o two_readmes_fetched)
  have rs': "rs' = [test_info\<lparr>readme_content := Some ''Hello World''\<rparr>,
                   (starred_info 5)\<lparr>readme_content := Some ''r readme''\<rparr>]"
    using len' r0' r1' by (simp add: list_eq_iff_nth_eq less_Suc_eq numeral_2_eq_2)
  have v1: "search_and_get_readmes_v1 two_readmes_api ''test'' 2 =
     \<lparr>returned = Inr [test_info\<lparr>readme_content := Some ''Hello World''\<rparr>,
                     (starred_info 5)\<lparr>readme_content := Some ''r readme''\<rparr>],
      fetches = [(''test-owner'', ''test-repo''), (''o'', ''r'')]\<rparr>"
    using e' by (simp add: rs' o)
  show ?thesis
    by (intro conjI two_readmes_search s two_readmes_fetched v2 two_readmes_search_v1 v1)
qed

text \<open>Claim C4 as stated fails: a record found without a slash makes the call raise.\<close>

theorem enrichment_frame_counterexample:
  "search_repositories bare_api ''test'' 1 = Inr [bare_info] \<and>
   search_and_get_readmes bare_api ''test'' 1 = \<lparr>returned = Inl ValueError, fetches = []\<rparr> \<and>
   \<not> (\<exists>rs. returned (search_and_get_readmes bare_api ''test'' 1) = Inr rs)"
proof -
  have "search_and_get_readmes bare_api ''test'' 1 = \<lparr>returned = Inl ValueError, fetches = []\<rparr>"
    by code_simp
  with bare_search show ?thesis by simp
qed

text \<open>
  Claim C10. The split of \<open>full_name\<close> happens in the first loop, outside any \<^verbatim>\<open>try\<close>: when
  some record found has no slash in its \<open>full_name\<close>, the call raises \<open>ValueError\<close> and no
  README has been fetched; the call returns a list exactly when every \<open>full_name\<close> has a slash.
  This holds for both searchers.
\<close>

theorem split_outside_try:
  "(search_repositories self domain limit = Inr repositories \<longrightarrow>
      ((\<exists>r \<in> set repositories. CHR ''/'' \<notin> set (full_name r)) \<longrightarrow>
         search_and_get_readmes self domain limit = \<lparr>returned = Inl ValueError, fetches = []\<rparr>) \<and>
      ((\<exists>rs. returned (search_and_get_readmes self domain limit) = Inr rs) \<longleftrightarrow>
         (\<forall>r \<in> set repositories. CHR ''/'' \<in> set (full_name r)))) \<and>
   (search_repositories_v1 self domain limit = Inr repositories \<longrightarrow>
      ((\<exists>r \<in> set repositories. CHR ''/'' \<notin> set (full_name r)) \<longrightarrow>
         search_and_get_readmes_v1 self domain limit = \<lparr>returned = Inl ValueError, fetches = []\<rparr>) \<and>
      ((\<exists>rs. returned (search_and_get_readmes_v1 self domain limit) = Inr rs) \<longleftrightarrow>
         (\<forall>r \<in> set repositories. CHR ''/'' \<in> set (full_name r))))"
proof -
  have gen: "((\<exists>r \<in> set repositories. CHR ''/'' \<notin> set (full_name r)) \<longrightarrow>
         enrich fetch (Inr repositories) = \<lparr>returned = Inl ValueError, fetches = []\<rparr>) \<and>
      ((\<exists>rs. returned (enrich fetch (Inr repositories)) = Inr rs) \<longleftrightarrow>
         (\<forall>r \<in> set repositories. CHR ''/'' \<in> set (full_name r)))" for fetch
  proof (cases "\<forall>r \<in> set repositories. CHR ''/'' \<in> set (full_name r)")
    case True
    then show ?thesis by (simp add: enrich_slashes)
  next
    case False
    then have "\<exists>r \<in> set repositories. CHR ''/'' \<notin> set (full_name r)" by blast
    then have "enrich fetch (Inr repositories) = \<lparr>returned = Inl ValueError, fetches = []\<rparr>"
      by (rule enrich_no_slash)
    with False show ?thesis by simp
  qed
  show ?thesis
    using gen by (simp add: search_and_get_readmes_def search_and_get_readmes_v1_def)
qed

theorem split_outside_try_witness:
  "search_repositories bare_api ''test'' 1 = Inr [bare_info] \<and>
   CHR ''/'' \<notin> set (full_name bare_info) \<and>
   search_and_get_readmes bare_api ''test'' 1 = \<lparr>returned = Inl ValueError, fetches = []\<rparr> \<and>
   search_repositories_v1 bare_api ''test'' 1 = Inr [bare_info] \<and>
   search_and_get_readmes_v1 bare_api ''test'' 1 = \<lparr>returned = Inl ValueError, fetches = []\<rparr> \<and>
   search_repositories hello_api ''test'' 1 = Inr [test_info] \<and>
   CHR ''/'' \<in> set (full_name test_info) \<and>
   (\<exists>rs. returned (search_and_get_readmes hello_api ''test'' 1) = Inr rs)"
proof -
  have b: "CHR ''/'' \<notin> set (full_name bare_info)" by (simp add: bare_info_def)
  have t: "CHR ''/'' \<in> set (full_name test_info)" by (simp add: test_info_def)
  from split_outside_try [of bare_api "''test''" 1 "[bare_info]"]
    split_outside_try [of hello_api "''test''" 1 "[test_info]"]
    bare_search bare_search_v1 hello_search b t
  show ?thesis by simp
qed

subsection \<open>Usage statistics\<close>

lemma handle_stats:
  "fst (handle env req st) =
     (case completed env req of
        Some (domain, repositories) \<Rightarrow> update_statistics st domain repositories
      | None \<Rightarrow> st)"
  by (cases req)
     (auto simp: completed_def search_handler_def new_searcher_def Let_def
           split: sum.splits option.splits)

lemma search_handler_reply:
  "snd (search_handler run validated env domain st) = Search_Response d rs n \<Longrightarrow>
   token_configured env \<and> run (api env) = Inr rs \<and> d = domain \<and> n = length rs"
  by (cases "token_configured env"; cases "run (api env)")
     (simp_all add: search_handler_def new_searcher_def Let_def split: if_splits)

lemma handle_reply:
  "snd (handle env req st) = Search_Response d rs n \<Longrightarrow> completed env req = Some (d, rs) \<and> n = length rs"
proof (cases req)
  case Get_Health
  then show "snd (handle env req st) = Search_Response d rs n \<Longrightarrow> ?thesis"
    by (simp add: health_check_def Let_def)
next
  case (Post_Search domain limit)
  then show "snd (handle env req st) = Search_Response d rs n \<Longrightarrow> ?thesis"
    by (cases "valid_limit limit") (auto simp: completed_def dest!: search_handler_reply)
next
  case (Get_Search domain limit)
  then show "snd (handle env req st) = Search_Response d rs n \<Longrightarrow> ?thesis"
    by (cases "valid_limit limit") (auto simp: completed_def dest!: search_handler_reply)
next
  case (Get_Search_Domain domain limit)
  then show "snd (handle env req st) = Search_Response d rs n \<Longrightarrow> ?thesis"
    by (cases "valid_limit limit") (auto simp: completed_def dest!: search_handler_reply)
next
  case (Get_Search_No_Readme domain limit)
  then show "snd (handle env req st) = Search_Response d rs n \<Longrightarrow> ?thesis"
    by (cases "valid_limit limit") (auto simp: completed_def dest!: search_handler_reply)
qed simp_all

lemma handle_post_invalid:
  "completed env (Post_Search domain limit) = Some (d, repositories) \<Longrightarrow>
   \<exists>r \<in> set repositories. description r = None \<or> language r = None \<Longrightarrow>
   snd (handle env (Post_Search domain limit) st) = Http_500"
proof -
  assume c: "completed env (Post_Search domain limit) = Some (d, repositories)"
    and n: "\<exists>r \<in> set repositories. description r = None \<or> language r = None"
  from c have v: "valid_limit limit" "token_configured env"
    and r: "returned (search_and_get_readmes (api env) domain limit) = Inr repositories"
    by (auto simp: completed_def split: sum.splits if_splits)
  show ?thesis
    using v r n by (simp add: search_handler_def new_searcher_def Let_def)
qed

lemma update_statistics_counts:
  "total_searches (update_statistics st domain repositories) = total_searches st + 1"
  "total_repositories_found (update_statistics st domain repositories) =
     total_repositories_found st + length repositories"
  "searched_domains (update_statistics st domain repositories) domain =
     Some (dict_get (searched_domains st domain) 0 + 1)"
  "other \<noteq> domain \<Longrightarrow>
     searched_domains (update_statistics st domain repositories) other = searched_domains st other"
  by (simp_all add: update_statistics_def)

lemma serve_snoc: "serve env (reqs @ [req]) = fst (handle env req (serve env reqs))"
  by (simp add: serve_def)

lemma counted_snoc:
  "counted env (reqs @ [req]) =
     counted env reqs @ (case completed env req of None \<Rightarrow> [] | Some c \<Rightarrow> [c])"
  by (simp add: counted_def List.map_filter_def split: option.splits)

lemma serve_counts:
  "total_searches (serve env reqs) = length (counted env reqs) \<and>
   total_repositories_found (serve env reqs) = sum_list (map (\<lambda>c. length (snd c)) (counted env reqs)) \<and>
   (\<forall>d. searched_domains (serve env reqs) d =
      (if d \<in> fst ` set (counted env reqs)
       then Some (length (filter (\<lambda>c. fst c = d) (counted env reqs))) else None))"
proof (induction reqs rule: rev_induct)
  case Nil
  show ?case by (simp add: serve_def counted_def List.map_filter_def initial_stats_def)
next
  case (snoc req reqs)
  show ?case
  proof (cases "completed env req")
    case None
    then show ?thesis
      using snoc by (simp add: serve_snoc counted_snoc handle_stats)
  next
    case (Some c)
    obtain domain repositories where c: "c = (domain, repositories)" by (cases c)
    have pos: "0 < length (filter (\<lambda>c. fst c = domain) (counted env reqs))"
      if "domain \<in> fst ` set (counted env reqs)"
      using that by (auto simp: length_greater_0_conv filter_empty_conv)
    have none: "filter (\<lambda>c. fst c = domain) (counted env reqs) = []"
      if "domain \<notin> fst ` set (counted env reqs)"
      using that by (auto simp: filter_empty_conv)
    show ?thesis
      using snoc Some c pos none
      by (auto simp: serve_snoc counted_snoc handle_stats update_statistics_def dict_get_def)
  qed
qed

text \<open>
  Claim C9, amended. The statistics start with both counters zero and no domain. A search
  request completes when its limit is valid, a token is configured and the call of the searcher
  returns. A search request that completes adds one to the number of searches, the number of
  repositories returned to the number of repositories found, and one to the count of the queried
  domain, leaving the other domains as they are; this happens before the reply is built, so a
  \<^verbatim>\<open>POST /search\<close> that completes and is then answered 500, because a record has no
  description or no language, is counted. Every other request, a search request that does not
  complete included, leaves the statistics unchanged. Every search request that is answered with
  a result has completed. So after any sequence of requests the counters are the number of
  completed searches, the sum of the repositories they returned, and for each domain the number
  of completed searches of it.
\<close>

theorem statistics_updates:
  "total_searches initial_stats = 0 \<and> total_repositories_found initial_stats = 0 \<and>
   searched_domains initial_stats = Map.empty \<and>
   (\<forall>domain repositories. completed env req = Some (domain, repositories) \<longrightarrow>
      total_searches (fst (handle env req st)) = total_searches st + 1 \<and>
      total_repositories_found (fst (handle env req st)) =
        total_repositories_found st + length repositories \<and>
      searched_domains (fst (handle env req st)) domain =
        Some (dict_get (searched_domains st domain) 0 + 1) \<and>
      (\<forall>other. other \<noteq> domain \<longrightarrow>
         searched_domains (fst (handle env req st)) other = searched_domains st other)) \<and>
   (completed env req = None \<longrightarrow> fst (handle env req st) = st) \<and>
   total_searches (serve env reqs) = length (counted env reqs) \<and>
   total_repositories_found (serve env reqs) =
     sum_list (map (\<lambda>c. length (snd c)) (counted env reqs)) \<and>
   (\<forall>d. searched_domains (serve env reqs) d =
      (if d \<in> fst ` set (counted env reqs)
       then Some (length (filter (\<lambda>c. fst c = d) (counted env reqs))) else None)) \<and>
   (\<forall>d rs n. snd (handle env req st) = Search_Response d rs n \<longrightarrow>
      completed env req = Some (d, rs) \<and> n = length rs) \<and>
   (\<forall>domain limit repositories.
      req = Post_Search domain limit \<and> completed env req = Some (domain, repositories) \<and>
      (\<exists>r \<in> set repositories. description r = None \<or> language r = None) \<longrightarrow>
      snd (handle env req st) = Http_500 \<and>
      total_searches (fst (handle env req st)) = total_searches st + 1)"
proof -
  have a: "total_searches initial_stats = 0 \<and> total_repositories_found initial_stats = 0 \<and>
   searched_domains initial_stats = Map.empty \<and>
   (\<forall>domain repositories. completed env req = Some (domain, repositories) \<longrightarrow>
      total_searches (fst (handle env req st)) = total_searches st + 1 \<and>
      total_repositories_found (fst (handle env req st)) =
        total_repositories_found st + length repositories \<and>
      searched_domains (fst (handle env req st)) domain =
        Some (dict_get (searched_domains st domain) 0 + 1) \<and>
      (\<forall>other. other \<noteq> domain \<longrightarrow>
         searched_domains (fst (handle env req st)) other = searched_domains st other)) \<and>
   (completed env req = None \<longrightarrow> fst (handle env req st) = st) \<and>
   total_searches (serve env reqs) = length (counted env reqs) \<and>
   total_repositories_found (serve env reqs) =
     sum_list (map (\<lambda>c. length (snd c)) (counted env reqs)) \<and>
   (\<forall>d. searched_domains (serve env reqs) d =
      (if d \<in> fst ` set (counted env reqs)
       then Some (length (filter (\<lambda>c. fst c = d) (counted env reqs))) else None))"
    using serve_counts [of env reqs]
    by (simp add: handle_stats update_statistics_counts initial_stats_def)
  have b: "\<forall>d rs n. snd (handle env req st) = Search_Response d rs n \<longrightarrow>
      completed env req = Some (d, rs) \<and> n = length rs"
    using handle_reply [of env req st] by blast
  have c: "\<forall>domain limit repositories.
      req = Post_Search domain limit \<and> completed env req = Some (domain, repositories) \<and>
      (\<exists>r \<in> set repositories. description r = None \<or> language r = None) \<longrightarrow>
      snd (handle env req st) = Http_500 \<and>
      total_searches (fst (handle env req st)) = total_searches st + 1"
  proof (intro allI impI, elim conjE)
    fix domain limit repositories
    assume r: "req = Post_Search domain limit"
      and c: "completed env req = Some (domain, repositories)"
      and n: "\<exists>r \<in> set repositories. description r = None \<or> language r = None"
    have "snd (handle env req st) = Http_500"
      using handle_post_invalid [of env domain limit domain repositories st] c n
      unfolding r by simp
    moreover have "total_searches (fst (handle env req st)) = total_searches st + 1"
      using c by (simp add: handle_stats update_statistics_counts)
    ultimately show "snd (handle env req st) = Http_500 \<and>
      total_searches (fst (handle env req st)) = total_searches st + 1" by simp
  qed
  note a1 = a [THEN conjunct1]
  note a2 = a [THEN conjunct2, THEN conjunct1]
  note a3 = a [THEN conjunct2, THEN conjunct2, THEN conjunct1]
  note a4 = a [THEN conjunct2, THEN conjunct2, THEN conjunct2, THEN conjunct1]
  note a5 = a [THEN conjunct2, THEN conjunct2, THEN conjunct2, THEN conjunct2, THEN conjunct1]
  note a6 = a [THEN conjunct2, THEN conjunct2, THEN conjunct2, THEN conjunct2, THEN conjunct2,
      THEN conjunct1]
  note a7 = a [THEN conjunct2, THEN conjunct2, THEN conjunct2, THEN conjunct2, THEN conjunct2,
      THEN conjunct2, THEN conjunct1]
  note a8 = a [THEN conjunct2, THEN conjunct2, THEN conjunct2, THEN conjunct2, THEN conjunct2,
      THEN conjunct2, THEN conjunct2]
  show ?thesis
    by (intro conjI a1 a2 a3 a4 a5 a6 a7 a8 b c)
qed

theorem statistics_updates_witness:
  "completed token_env (Get_Search ''test'' 1) =
     Some (''test'', [test_info\<lparr>readme_content := Some ''Hello World''\<rparr>]) \<and>
   snd (handle token_env (Get_Search ''test'' 1) initial_stats) =
     Search_Response ''test'' [test_info\<lparr>readme_content := Some ''Hello World''\<rparr>] 1 \<and>
   total_searches (fst (handle token_env (Get_Search ''test'' 1) initial_stats)) = 1 \<and>
   total_repositories_found (fst (handle token_env (Get_Search ''test'' 1) initial_stats)) = 1 \<and>
   searched_domains (fst (handle token_env (Get_Search ''test'' 1) initial_stats)) ''test'' = Some 1 \<and>
   completed token_env Get_Health = None \<and>
   fst (handle token_env Get_Health initial_stats) = initial_stats \<and>
   total_searches (serve token_env [Get_Search ''test'' 1, Get_Health, Get_Stats]) = 1 \<and>
   completed null_description_env (Post_Search ''test'' 1) =
     Some (''test'', [(starred_info 5)\<lparr>readme_content := Some ''Hello World''\<rparr>]) \<and>
   description ((starred_info 5)\<lparr>readme_content := Some ''Hello World''\<rparr>) = None \<and>
   snd (handle null_description_env (Post_Search ''test'' 1) initial_stats) = Http_500 \<and>
   total_searches (fst (handle null_description_env (Post_Search ''test'' 1) initial_stats)) = 1 \<and>
   total_searches (serve null_description_env [Post_Search ''test'' 1]) = 1"
proof -
  let ?hello = "test_info\<lparr>readme_content := Some ''Hello World''\<rparr>"
  let ?null = "(starred_info 5)\<lparr>readme_content := Some ''Hello World''\<rparr>"
  let ?get = "Get_Search ''test'' 1" and ?post = "Post_Search ''test'' 1"
  have k: "length (counted token_env [?get, Get_Health, Get_Stats]) = 1"
    by code_simp
  have c: "completed token_env ?get = Some (''test'', [?hello])"
    by code_simp
  have h: "snd (handle token_env ?get initial_stats) = Search_Response ''test'' [?hello] 1"
    by code_simp
  have n: "completed token_env Get_Health = None"
    by (simp add: completed_def)
  have c': "completed null_description_env ?post = Some (''test'', [?null])"
    by code_simp
  have k': "length (counted null_description_env [?post]) = 1"
    by code_simp
  have d: "description ?null = None"
    by (simp add: starred_info_def)
  have i: "total_searches initial_stats = 0" "total_repositories_found initial_stats = 0"
    "searched_domains initial_stats ''test'' = None"
    by (simp_all add: initial_stats_def)
  note s = statistics_updates [of null_description_env ?post initial_stats "[?post]"]
  note s6 = s [THEN conjunct2, THEN conjunct2, THEN conjunct2, THEN conjunct2, THEN conjunct2]
  have pre: "?post = Post_Search ''test'' 1 \<and>
      completed null_description_env ?post = Some (''test'', [?null]) \<and>
      (\<exists>r \<in> set [?null]. description r = None \<or> language r = None)"
    using c' d by simp
  note p = s6 [THEN conjunct2, THEN conjunct2, THEN conjunct2, THEN conjunct2,
      THEN spec, THEN spec, THEN spec, THEN mp, OF pre]
  have p1: "snd (handle null_description_env ?post initial_stats) = Http_500"
    using p by (rule conjunct1)
  have p2: "total_searches (fst (handle null_description_env ?post initial_stats)) = 1"
    using p [THEN conjunct2] i(1) by simp
  have t: "total_searches (serve null_description_env [?post]) = 1"
    using s6 [THEN conjunct1] k' by simp
  note u = statistics_updates [of token_env ?get initial_stats "[?get, Get_Health, Get_Stats]"]
  note u4 = u [THEN conjunct2, THEN conjunct2, THEN conjunct2, THEN conjunct1,
      THEN spec, THEN spec, THEN mp, OF c]
  have w1: "total_searches (fst (handle token_env ?get initial_stats)) = 1"
    using u4 [THEN conjunct1] i(1) by simp
  have w2: "total_repositories_found (fst (handle token_env ?get initial_stats)) = 1"
    using u4 [THEN conjunct2, THEN conjunct1] i(2) by simp
  have w3: "searched_domains (fst (handle token_env ?get initial_stats)) ''test'' = Some 1"
    using u4 [THEN conjunct2, THEN conjunct2, THEN conjunct1] i(3) by (simp add: dict_get_def)
  have w4: "fst (handle token_env Get_Health initial_stats) = initial_stats"
    using statistics_updates [of token_env Get_Health initial_stats "[]", THEN conjunct2,
        THEN conjunct2, THEN conjunct2, THEN conjunct2, THEN conjunct1, THEN mp, OF n] .
  have w5: "total_searches (serve token_env [?get, Get_Health, Get_Stats]) = 1"
    using u [THEN conjunct2, THEN conjunct2, THEN conjunct2, THEN conjunct2, THEN conjunct2,
        THEN conjunct1] k by simp
  show ?thesis
    by (intro conjI c h w1 w2 w3 n w4 w5 c' d p1 p2 t)
qed

text \<open>Claim C9 as stated fails: without a token a search request is answered 500 and is not counted.\<close>

theorem statistics_updates_counterexample:
  "valid_limit 5 \<and>
   handle no_token_env (Get_Search ''python'' 5) initial_stats = (initial_stats, Http_500) \<and>
   total_searches (fst (handle no_token_env (Get_Search ''python'' 5) initial_stats)) \<noteq>
     total_searches initial_stats + 1"
  by (simp add: valid_limit_def no_token_env_def search_handler_def new_searcher_def
      token_configured_def initial_stats_def)

end
